theory Spec2Isabelle
  imports Complex_Main
begin

section \<open>JavaScript values used by the chunked export\<close>

text \<open>
  The temperature dashboard (\<^verbatim>\<open>TemperatureDashboard.tsx\<close>) computes its progress percentage
  and its size estimate with JavaScript numbers. A JavaScript number is either NaN, an
  infinity, or a finite value. The finite values are kept as rationals, and every arithmetic
  operation that rounds its exact result to a binary64 value takes that rounding as the
  parameter \<open>fl\<close>: nothing below depends on which rounding it is, except where a lemma
  says that it is monotone. Signed zeroes are not distinguished.
\<close>

datatype jsnum = NaN | PosInf | NegInf | Fin rat

text \<open>\<^verbatim>\<open>a / b\<close> on two finite numbers: division by zero gives NaN or an infinity.\<close>

definition js_div :: "(rat \<Rightarrow> rat) \<Rightarrow> rat \<Rightarrow> rat \<Rightarrow> jsnum" where
  "js_div fl a b =
     (if b = 0 then (if a = 0 then NaN else if 0 < a then PosInf else NegInf)
      else Fin (fl (a / b)))"

text \<open>\<^verbatim>\<open>x * c\<close> for a finite constant \<open>c\<close>.\<close>

fun js_mul :: "(rat \<Rightarrow> rat) \<Rightarrow> jsnum \<Rightarrow> rat \<Rightarrow> jsnum" where
  "js_mul fl NaN c = NaN"
| "js_mul fl PosInf c = (if c = 0 then NaN else if 0 < c then PosInf else NegInf)"
| "js_mul fl NegInf c = (if c = 0 then NaN else if 0 < c then NegInf else PosInf)"
| "js_mul fl (Fin a) c = Fin (fl (a * c))"

text \<open>\<^verbatim>\<open>x / c\<close> for a finite non-zero constant \<open>c\<close> (only used with \<open>c = 100\<close>).\<close>

fun js_div_const :: "(rat \<Rightarrow> rat) \<Rightarrow> jsnum \<Rightarrow> rat \<Rightarrow> jsnum" where
  "js_div_const fl NaN c = NaN"
| "js_div_const fl PosInf c = (if 0 \<le> c then PosInf else NegInf)"
| "js_div_const fl NegInf c = (if 0 \<le> c then NegInf else PosInf)"
| "js_div_const fl (Fin a) c = js_div fl a c"

text \<open>\<^verbatim>\<open>Math.round\<close>: the nearest integer, a tie going up; NaN and the infinities stay.\<close>

fun Math_round :: "jsnum \<Rightarrow> jsnum" where
  "Math_round (Fin x) = Fin (of_int \<lfloor>x + 1 / 2\<rfloor>)"
| "Math_round x = x"

text \<open>\<^verbatim>\<open>Math.min\<close> of two numbers: NaN as soon as one argument is NaN.\<close>

fun Math_min :: "jsnum \<Rightarrow> jsnum \<Rightarrow> jsnum" where
  "Math_min NaN y = NaN"
| "Math_min x NaN = NaN"
| "Math_min NegInf y = NegInf"
| "Math_min x NegInf = NegInf"
| "Math_min PosInf y = y"
| "Math_min x PosInf = x"
| "Math_min (Fin a) (Fin b) = Fin (min a b)"

text \<open>The comparison \<^verbatim>\<open>x <= y\<close>: false as soon as one side is NaN.\<close>

fun js_le :: "jsnum \<Rightarrow> jsnum \<Rightarrow> bool" where
  "js_le NaN y = False"
| "js_le x NaN = False"
| "js_le NegInf y = True"
| "js_le x PosInf = True"
| "js_le x NegInf = False"
| "js_le PosInf y = False"
| "js_le (Fin a) (Fin b) = (a \<le> b)"

text \<open>
  Truthiness, as \<^verbatim>\<open>if (x)\<close>, \<^verbatim>\<open>!x\<close> and \<^verbatim>\<open>x || y\<close> test it: a string is falsy when
  empty, a \<^verbatim>\<open>number | null\<close> when null or zero, a \<^verbatim>\<open>string | null\<close> (or a possibly
  undefined string) when absent or empty.
\<close>

definition truthy_str :: "string \<Rightarrow> bool" where
  "truthy_str s = (s \<noteq> [])"

definition truthy_num :: "int option \<Rightarrow> bool" where
  "truthy_num m = (case m of None \<Rightarrow> False | Some n \<Rightarrow> n \<noteq> 0)"

definition truthy_opt_str :: "string option \<Rightarrow> bool" where
  "truthy_opt_str s = (case s of None \<Rightarrow> False | Some t \<Rightarrow> t \<noteq> [])"

text \<open>
  \<^verbatim>\<open>x || d\<close> for a string that may be absent, and for a number that may be absent: the
  default \<open>d\<close> stands in for a falsy \<open>x\<close>.
\<close>

definition or_str :: "string option \<Rightarrow> string \<Rightarrow> string" where
  "or_str x d = (case x of None \<Rightarrow> d | Some t \<Rightarrow> if t = [] then d else t)"

definition or_num :: "int option \<Rightarrow> int \<Rightarrow> int" where
  "or_num x d = (case x of None \<Rightarrow> d | Some n \<Rightarrow> if n = 0 then d else n)"

section \<open>Data of the temperature dashboard\<close>

text \<open>
  A row of the endpoint's \<^verbatim>\<open>data\<close> array (interface \<^verbatim>\<open>TemperaturePoint\<close>). The three
  numeric fields have the type \<open>'n\<close> of the numbers the JSON carries; the CSV encoder turns
  them into text with the language's number-to-string conversion, the parameter
  \<open>str\<close> below.
\<close>

record 'n TemperaturePoint =
  date :: string
  time :: string
  latitude :: 'n
  longitude :: 'n
  probe_temperature_f :: 'n
  transit :: string

text \<open>
  Interface \<^verbatim>\<open>DownloadSummary\<close>. Its field \<^verbatim>\<open>transport\<close> is called \<open>transportFilter\<close>
  here (the name of the local it is built from), since the request payload has a key of the
  same name.
\<close>

record DownloadSummary =
  count :: int
  dateRange :: string
  timeRange :: string
  transportFilter :: string
  estimatedSizeMB :: jsnum

text \<open>
  The JSON body posted to \<^verbatim>\<open>generate-csv-download\<close>. A key that the payload does not
  carry is \<open>None\<close>; \<open>transport\<close> is \<open>None\<close> for \<^verbatim>\<open>null\<close>.
\<close>

record page_request =
  startTime :: string
  endTime :: string
  transport :: "string option"
  month :: "int option"
  startDate :: "string option"
  endDate :: "string option"
  offset :: "int option"
  limit :: "int option"

text \<open>
  The JSON the endpoint answers with (section 6 of the specification):
  \<^verbatim>\<open>{ success, data, fetchedCount, hasMore, total? }\<close> or \<^verbatim>\<open>{ success: false, error }\<close>.
  The key \<^verbatim>\<open>total\<close> is the field \<open>total_f\<close>.
\<close>

record 'n chunk =
  success :: bool
  error :: "string option"
  data :: "'n TemperaturePoint list"
  fetchedCount :: int
  hasMore :: bool
  total_f :: "int option"

text \<open>
  What one \<^verbatim>\<open>fetch\<close> followed by \<^verbatim>\<open>response.json()\<close> can come to: a promise that rejects
  (network failure, a body that is not JSON), a response whose \<^verbatim>\<open>ok\<close> is false (with its
  status and body text), or a parsed body.
\<close>

datatype 'n fetch_result =
    Rejects string
  | HttpFailure nat string
  | Json "'n chunk"

text \<open>The errors thrown inside the two \<^verbatim>\<open>try\<close> blocks.\<close>

datatype download_error =
    ConfigMissing
  | Rejected string
  | ChunkFetchFailed nat string
  | ChunkError string
  | PreviewFailed nat string
  | PreviewError string

text \<open>The calls of \<^verbatim>\<open>alert\<close>, with the error or the count that the message text embeds.\<close>

datatype alert =
    SelectMonthOrRange
  | NoPreview
  | NoDataFound
  | FailedToPreview download_error
  | FailedToDownload download_error
  | Downloaded int

text \<open>
  The part of the component that the export uses: the nine \<^verbatim>\<open>useState\<close> cells of the
  download section, and what the component does to the outside. \<open>network\<close> lists the
  requests sent to \<^verbatim>\<open>generate-csv-download\<close>, each with the result it got; \<open>alerts\<close>
  the dialogs shown; \<open>progressLog\<close> the values passed to \<^verbatim>\<open>setDownloadProgress\<close>
  inside the paging loop, page after page;
  \<open>saved\<close> the files handed to the browser (\<^verbatim>\<open>link.click()\<close> on a link to the blob), each
  as its file name and the blob's parts.
\<close>

record 'n dashboard =
  downloadStartDate :: string
  downloadEndDate :: string
  downloadStartTime :: string
  downloadEndTime :: string
  downloadTransport :: "string option"
  downloadMonth :: "int option"
  downloadLoading :: bool
  downloadSummary :: "DownloadSummary option"
  downloadProgress :: jsnum
  network :: "(page_request \<times> 'n fetch_result) list"
  alerts :: "alert list"
  progressLog :: "jsnum list"
  saved :: "(string \<times> string list) list"

text \<open>The state the component is mounted with.\<close>

definition initial :: "'n dashboard" where
  "initial =
     \<lparr> downloadStartDate = [], downloadEndDate = [], downloadStartTime = [],
       downloadEndTime = [], downloadTransport = None, downloadMonth = None,
       downloadLoading = False, downloadSummary = None, downloadProgress = Fin 0,
       network = [], alerts = [], progressLog = [], saved = [] \<rparr>"

text \<open>
  \<^verbatim>\<open>process.env.NEXT_PUBLIC_SUPABASE_URL\<close> and \<^verbatim>\<open>..._ANON_KEY\<close>: each may be undefined.
\<close>

record config =
  supabaseUrl :: "string option"
  supabaseAnonKey :: "string option"

text \<open>The table \<^verbatim>\<open>months\<close>, each entry as its value and its label.\<close>

definition months :: "(int \<times> string) list" where
  "months =
     [(1, ''January''), (2, ''February''), (3, ''March''), (4, ''April''), (5, ''May''),
      (6, ''June''), (7, ''July''), (8, ''August''), (9, ''September''), (10, ''October''),
      (11, ''November''), (12, ''December'')]"

text \<open>
  \<^verbatim>\<open>months.find(m => m.value === downloadMonth)?.label\<close> inside a template literal: the
  label, or the text \<^verbatim>\<open>undefined\<close> when no entry matches.
\<close>

definition monthLabel :: "int option \<Rightarrow> string" where
  "monthLabel m =
     (case find (\<lambda>e. Some (fst e) = m) months of
        None \<Rightarrow> ''undefined''
      | Some e \<Rightarrow> snd e)"

section \<open>The filter handlers of the download section\<close>

text \<open>
  The \<^verbatim>\<open>onChange\<close> handlers of the month selector and of the two date inputs. The
  selector's handler is given the local \<^verbatim>\<open>month\<close> it computes
  (\<^verbatim>\<open>e.target.value ? parseInt(e.target.value) : null\<close>); the date handlers the input's
  value.
\<close>

definition onMonthChange :: "int option \<Rightarrow> 'n dashboard \<Rightarrow> 'n dashboard" where
  "onMonthChange m s =
     (let s1 = s\<lparr>downloadMonth := m\<rparr>
      in if truthy_num m then s1\<lparr>downloadStartDate := [], downloadEndDate := []\<rparr> else s1)"

definition onStartDateChange :: "string \<Rightarrow> 'n dashboard \<Rightarrow> 'n dashboard" where
  "onStartDateChange v s =
     (let s1 = s\<lparr>downloadStartDate := v\<rparr>
      in if truthy_str v then s1\<lparr>downloadMonth := None\<rparr> else s1)"

definition onEndDateChange :: "string \<Rightarrow> 'n dashboard \<Rightarrow> 'n dashboard" where
  "onEndDateChange v s =
     (let s1 = s\<lparr>downloadEndDate := v\<rparr>
      in if truthy_str v then s1\<lparr>downloadMonth := None\<rparr> else s1)"

definition onStartTimeChange :: "string \<Rightarrow> 'n dashboard \<Rightarrow> 'n dashboard" where
  "onStartTimeChange v s = s\<lparr>downloadStartTime := v\<rparr>"

definition onEndTimeChange :: "string \<Rightarrow> 'n dashboard \<Rightarrow> 'n dashboard" where
  "onEndTimeChange v s = s\<lparr>downloadEndTime := v\<rparr>"

text \<open>A transport button: \<^verbatim>\<open>setDownloadTransport(type === downloadTransport ? null : type)\<close>.\<close>

definition onTransportClick :: "string \<Rightarrow> 'n dashboard \<Rightarrow> 'n dashboard" where
  "onTransportClick ty s =
     s\<lparr>downloadTransport := (if Some ty = downloadTransport s then None else Some ty)\<rparr>"

datatype filter_op =
    MonthChange "int option"
  | StartDateChange string
  | EndDateChange string
  | StartTimeChange string
  | EndTimeChange string
  | TransportClick string

fun apply_filter_op :: "'n dashboard \<Rightarrow> filter_op \<Rightarrow> 'n dashboard" where
  "apply_filter_op s (MonthChange m) = onMonthChange m s"
| "apply_filter_op s (StartDateChange v) = onStartDateChange v s"
| "apply_filter_op s (EndDateChange v) = onEndDateChange v s"
| "apply_filter_op s (StartTimeChange v) = onStartTimeChange v s"
| "apply_filter_op s (EndTimeChange v) = onEndTimeChange v s"
| "apply_filter_op s (TransportClick ty) = onTransportClick ty s"

text \<open>
  A month is set when \<^verbatim>\<open>downloadMonth\<close> is truthy, the test the component itself makes;
  a date-range value is set when one of the two dates is a non-empty string.
\<close>

definition month_set :: "'n dashboard \<Rightarrow> bool" where
  "month_set s = truthy_num (downloadMonth s)"

definition date_set :: "'n dashboard \<Rightarrow> bool" where
  "date_set s = (truthy_str (downloadStartDate s) \<or> truthy_str (downloadEndDate s))"

section \<open>The chunked CSV export\<close>

text \<open>The header fragment pushed first, and the template literal that encodes one row.\<close>

definition csvHeader :: string where
  "csvHeader = ''date,time,latitude,longitude,probe_temperature_f,transit\<newline>''"

definition csvRow :: "('n \<Rightarrow> string) \<Rightarrow> 'n TemperaturePoint \<Rightarrow> string" where
  "csvRow str row =
     date row @ '','' @ time row @ '','' @ str (latitude row) @ '','' @ str (longitude row)
       @ '','' @ str (probe_temperature_f row) @ '','' @ transit row @ ''\<newline>''"

text \<open>
  The object \<^verbatim>\<open>payload\<close> that both \<^verbatim>\<open>previewDownload\<close> and \<^verbatim>\<open>executeDownload\<close> build
  from the filter cells: the month when it is truthy, the two dates otherwise.
\<close>

definition downloadPayload :: "'n dashboard \<Rightarrow> page_request" where
  "downloadPayload s =
     (let payload = \<lparr> startTime = downloadStartTime s, endTime = downloadEndTime s,
                      transport = downloadTransport s, month = None, startDate = None,
                      endDate = None, offset = None, limit = None \<rparr>
      in if truthy_num (downloadMonth s) then payload\<lparr>month := downloadMonth s\<rparr>
         else payload\<lparr>startDate := Some (downloadStartDate s),
                      endDate := Some (downloadEndDate s)\<rparr>)"

definition downloadFilename :: "'n dashboard \<Rightarrow> string" where
  "downloadFilename s =
     (if truthy_num (downloadMonth s)
      then ''temperature_data_'' @ monthLabel (downloadMonth s) @ ''_all_years.csv''
      else ''temperature_data_'' @ downloadStartDate s @ ''_to_'' @ downloadEndDate s @ ''.csv'')"

definition configMissing :: "config \<Rightarrow> bool" where
  "configMissing cfg = (\<not> truthy_opt_str (supabaseUrl cfg) \<or> \<not> truthy_opt_str (supabaseAnonKey cfg))"

definition CHUNK_SIZE :: int where
  "CHUNK_SIZE = 5000"

text \<open>
  \<^verbatim>\<open>Math.min(Math.round((totalFetched / downloadSummary.count) * 100), 100)\<close>
\<close>

definition progressOf :: "(rat \<Rightarrow> rat) \<Rightarrow> int \<Rightarrow> int \<Rightarrow> jsnum" where
  "progressOf fl totalFetched cnt =
     Math_min (Math_round (js_mul fl (js_div fl (of_int totalFetched) (of_int cnt)) 100)) (Fin 100)"

text \<open>
  The locals of the paging loop. \<open>offset_l\<close> and \<open>hasMore_l\<close> are the locals \<^verbatim>\<open>offset\<close>
  and \<^verbatim>\<open>hasMore\<close> (the request and the chunk have keys of these names).
\<close>

record locals =
  blobParts :: "string list"
  offset_l :: int
  hasMore_l :: bool
  totalFetched :: int

text \<open>
  The endpoint is outside the component: it is a parameter, a function of the request and
  of the number of requests the component has sent before (so that it may answer the same
  request differently at different times).

  \<open>fetchChunk\<close> is one pass through the body of \<^verbatim>\<open>while (hasMore)\<close>: it either throws
  (\<open>Inl\<close>, and the locals are gone with the block they live in) or ends with the updated
  locals.
\<close>

definition fetchChunk ::
  "(rat \<Rightarrow> rat) \<Rightarrow> ('n \<Rightarrow> string) \<Rightarrow> (nat \<Rightarrow> page_request \<Rightarrow> 'n fetch_result)
     \<Rightarrow> page_request \<Rightarrow> int \<Rightarrow> locals \<Rightarrow> 'n dashboard
     \<Rightarrow> (download_error + locals) \<times> 'n dashboard" where
  "fetchChunk fl str endpoint payload cnt v w =
     (let req = payload\<lparr>offset := Some (offset_l v), limit := Some CHUNK_SIZE\<rparr>;
          response = endpoint (length (network w)) req;
          w1 = w\<lparr>network := network w @ [(req, response)]\<rparr>
      in case response of
           Rejects m \<Rightarrow> (Inl (Rejected m), w1)
         | HttpFailure status errorText \<Rightarrow> (Inl (ChunkFetchFailed status errorText), w1)
         | Json c \<Rightarrow>
             if \<not> success c
             then (Inl (ChunkError (or_str (error c) ''Failed to fetch chunk'')), w1)
             else
               let chunkCsv = concat (map (csvRow str) (data c));
                   parts = (if 0 < length chunkCsv then blobParts v @ [chunkCsv]
                            else blobParts v);
                   fetched = totalFetched v + fetchedCount c;
                   progress = progressOf fl fetched cnt
               in (Inr \<lparr> blobParts = parts, offset_l = offset_l v + CHUNK_SIZE,
                          hasMore_l = hasMore c, totalFetched = fetched \<rparr>,
                   w1\<lparr>downloadProgress := progress,
                      progressLog := progressLog w1 @ [progress]\<rparr>))"

text \<open>
  The loop itself. The endpoint may report \<^verbatim>\<open>hasMore\<close> for ever, so the loop takes fuel,
  one unit per pass; \<open>None\<close> says that the fuel ran out before the loop ended.
\<close>

fun chunkLoop ::
  "nat \<Rightarrow> (rat \<Rightarrow> rat) \<Rightarrow> ('n \<Rightarrow> string) \<Rightarrow> (nat \<Rightarrow> page_request \<Rightarrow> 'n fetch_result)
     \<Rightarrow> page_request \<Rightarrow> int \<Rightarrow> locals \<Rightarrow> 'n dashboard
     \<Rightarrow> ((download_error + locals) \<times> 'n dashboard) option" where
  "chunkLoop 0 fl str endpoint payload cnt v w =
     (if hasMore_l v then None else Some (Inr v, w))"
| "chunkLoop (Suc fuel) fl str endpoint payload cnt v w =
     (if hasMore_l v
      then (case fetchChunk fl str endpoint payload cnt v w of
              (Inl e, w1) \<Rightarrow> Some (Inl e, w1)
            | (Inr v1, w1) \<Rightarrow> chunkLoop fuel fl str endpoint payload cnt v1 w1)
      else Some (Inr v, w))"

text \<open>
  \<^verbatim>\<open>executeDownload\<close>. The filter cells and the summary are read from the render the
  handler was created in (\<open>s\<close>); the setters and the outside effects accumulate in the
  result. The \<^verbatim>\<open>catch\<close> block alerts the error, the \<^verbatim>\<open>finally\<close> block ends the loading
  state on both paths.
\<close>

definition executeDownload ::
  "nat \<Rightarrow> (rat \<Rightarrow> rat) \<Rightarrow> ('n \<Rightarrow> string) \<Rightarrow> config \<Rightarrow> (nat \<Rightarrow> page_request \<Rightarrow> 'n fetch_result)
     \<Rightarrow> 'n dashboard \<Rightarrow> 'n dashboard option" where
  "executeDownload fuel fl str cfg endpoint s =
     (case downloadSummary s of
        None \<Rightarrow> Some (s\<lparr>alerts := alerts s @ [NoPreview]\<rparr>)
      | Some summary \<Rightarrow>
          let s1 = s\<lparr>downloadLoading := True, downloadProgress := Fin 0\<rparr>;
              payload = downloadPayload s
          in if configMissing cfg
             then Some (s1\<lparr>alerts := alerts s1 @ [FailedToDownload ConfigMissing],
                           downloadLoading := False\<rparr>)
             else
               (case chunkLoop fuel fl str endpoint payload (count summary)
                       \<lparr> blobParts = [csvHeader], offset_l = 0, hasMore_l = True,
                         totalFetched = 0 \<rparr> s1 of
                  None \<Rightarrow> None
                | Some (Inl e, s2) \<Rightarrow>
                    Some (s2\<lparr>alerts := alerts s2 @ [FailedToDownload e],
                             downloadLoading := False\<rparr>)
                | Some (Inr v, s2) \<Rightarrow>
                    Some (s2\<lparr>saved := saved s2 @ [(downloadFilename s, blobParts v)],
                             alerts := alerts s2 @ [Downloaded (totalFetched v)],
                             downloadStartDate := [], downloadEndDate := [],
                             downloadStartTime := [], downloadEndTime := [],
                             downloadTransport := None, downloadMonth := None,
                             downloadSummary := None, downloadProgress := Fin 0,
                             downloadLoading := False\<rparr>)))"

text \<open>
  \<^verbatim>\<open>previewDownload\<close>: one request with \<^verbatim>\<open>offset: 0, limit: 1\<close>, whose \<^verbatim>\<open>total\<close> becomes
  the summary's count.
\<close>

definition previewDownload ::
  "(rat \<Rightarrow> rat) \<Rightarrow> config \<Rightarrow> (nat \<Rightarrow> page_request \<Rightarrow> 'n fetch_result)
     \<Rightarrow> 'n dashboard \<Rightarrow> 'n dashboard" where
  "previewDownload fl cfg endpoint s =
     (if \<not> truthy_num (downloadMonth s)
          \<and> (\<not> truthy_str (downloadStartDate s) \<or> \<not> truthy_str (downloadEndDate s))
      then s\<lparr>alerts := alerts s @ [SelectMonthOrRange]\<rparr>
      else
        let s1 = s\<lparr>downloadLoading := True, downloadSummary := None,
                   downloadProgress := Fin 0\<rparr>
        in if configMissing cfg
           then s1\<lparr>alerts := alerts s1 @ [FailedToPreview ConfigMissing],
                    downloadLoading := False\<rparr>
           else
             let req = (downloadPayload s)\<lparr>offset := Some 0, limit := Some 1\<rparr>;
                 response = endpoint (length (network s1)) req;
                 s2 = s1\<lparr>network := network s1 @ [(req, response)]\<rparr>;
                 failed = (\<lambda>e. s2\<lparr>alerts := alerts s2 @ [FailedToPreview e],
                                   downloadLoading := False\<rparr>)
             in case response of
                  Rejects m \<Rightarrow> failed (Rejected m)
                | HttpFailure status errorText \<Rightarrow> failed (PreviewFailed status errorText)
                | Json c \<Rightarrow>
                    if \<not> success c
                    then failed (PreviewError (or_str (error c) ''Failed to get preview''))
                    else
                      let totalCount = or_num (total_f c) 0;
                          sizeMB = js_div fl (of_int (totalCount * 150)) (1024 * 1024);
                          summary =
                            \<lparr> count = totalCount,
                              dateRange =
                                (if truthy_num (downloadMonth s)
                                 then monthLabel (downloadMonth s) @ '' (all years)''
                                 else downloadStartDate s @ '' to '' @ downloadEndDate s),
                              timeRange =
                                (if truthy_str (downloadStartTime s) \<or> truthy_str (downloadEndTime s)
                                 then (if truthy_str (downloadStartTime s)
                                       then downloadStartTime s else ''00:00'')
                                      @ '' to '' @
                                      (if truthy_str (downloadEndTime s)
                                       then downloadEndTime s else ''23:59'')
                                 else ''All day''),
                              transportFilter = or_str (downloadTransport s) ''All'',
                              estimatedSizeMB =
                                js_div_const fl (Math_round (js_mul fl sizeMB 100)) 100 \<rparr>;
                          s3 = s2\<lparr>downloadSummary := Some summary\<rparr>;
                          s4 = (if totalCount = 0
                                then s3\<lparr>alerts := alerts s3 @ [NoDataFound]\<rparr> else s3)
                      in s4\<lparr>downloadLoading := False\<rparr>)"

section \<open>Vocabulary for runs of the export\<close>

text \<open>
  What a result of \<^verbatim>\<open>fetch\<close> means to the paging loop: whether the page request succeeded
  (a response with \<^verbatim>\<open>ok\<close> and a body with \<^verbatim>\<open>success\<close>), the rows, the count and the
  \<^verbatim>\<open>hasMore\<close> flag it carries, and the error the loop throws when it did not succeed.
\<close>

definition page_ok :: "'n fetch_result \<Rightarrow> bool" where
  "page_ok r = (case r of Json c \<Rightarrow> success c | _ \<Rightarrow> False)"

definition rows_of :: "'n fetch_result \<Rightarrow> 'n TemperaturePoint list" where
  "rows_of r = (case r of Json c \<Rightarrow> data c | _ \<Rightarrow> [])"

definition fetched_of :: "'n fetch_result \<Rightarrow> int" where
  "fetched_of r = (case r of Json c \<Rightarrow> fetchedCount c | _ \<Rightarrow> 0)"

definition more_of :: "'n fetch_result \<Rightarrow> bool" where
  "more_of r = (case r of Json c \<Rightarrow> hasMore c | _ \<Rightarrow> False)"

definition thrown_by :: "'n fetch_result \<Rightarrow> download_error" where
  "thrown_by r =
     (case r of
        Rejects m \<Rightarrow> Rejected m
      | HttpFailure status errorText \<Rightarrow> ChunkFetchFailed status errorText
      | Json c \<Rightarrow> ChunkError (or_str (error c) ''Failed to fetch chunk''))"

text \<open>The request the loop sends for the page at an offset, and the text it makes of a page.\<close>

definition pageRequest :: "page_request \<Rightarrow> int \<Rightarrow> page_request" where
  "pageRequest payload off = payload\<lparr>offset := Some off, limit := Some CHUNK_SIZE\<rparr>"

definition chunkText :: "('n \<Rightarrow> string) \<Rightarrow> 'n fetch_result \<Rightarrow> string" where
  "chunkText str r = concat (map (csvRow str) (rows_of r))"

text \<open>
  The export request held in the component: the six filter cells and the preview summary.
  It is cleared when all seven are back to their initial values.
\<close>

definition exportRequest ::
  "'n dashboard \<Rightarrow> string \<times> string \<times> string \<times> string \<times> string option \<times> int option \<times> DownloadSummary option" where
  "exportRequest s =
     (downloadStartDate s, downloadEndDate s, downloadStartTime s, downloadEndTime s,
      downloadTransport s, downloadMonth s, downloadSummary s)"

definition cleared :: "'n dashboard \<Rightarrow> bool" where
  "cleared s = (exportRequest s = ([], [], [], [], None, None, None))"

text \<open>
  The requests a handler sent, each with its result: what \<open>network\<close> has gained between the
  state \<open>s\<close> the handler started in and the state \<open>s'\<close> it ended in; the records they
  returned, in the order in which they arrived; and whether every one of them succeeded.
\<close>

definition sent :: "'n dashboard \<Rightarrow> 'n dashboard \<Rightarrow> (page_request \<times> 'n fetch_result) list" where
  "sent s s' = drop (length (network s)) (network s')"

definition received :: "'n dashboard \<Rightarrow> 'n dashboard \<Rightarrow> 'n TemperaturePoint list" where
  "received s s' = concat (map (\<lambda>x. rows_of (snd x)) (sent s s'))"

definition all_pages_ok :: "'n dashboard \<Rightarrow> 'n dashboard \<Rightarrow> bool" where
  "all_pages_ok s s' = list_all (\<lambda>x. page_ok (snd x)) (sent s s')"

text \<open>
  The \<open>k\<close>-th exchange of a loop that starts at the offset \<open>off\<close> when the component has
  already sent \<open>base\<close> requests.
\<close>

definition exchange ::
  "(nat \<Rightarrow> page_request \<Rightarrow> 'n fetch_result) \<Rightarrow> page_request \<Rightarrow> nat \<Rightarrow> int \<Rightarrow> nat
     \<Rightarrow> page_request \<times> 'n fetch_result" where
  "exchange ep payload base off k =
     (pageRequest payload (off + CHUNK_SIZE * int k),
      ep (base + k) (pageRequest payload (off + CHUNK_SIZE * int k)))"

section \<open>The words of the specification\<close>

text \<open>
  An endpoint over a dataset of \<open>T\<close> records "reports \<^verbatim>\<open>hasMore\<close> exactly when records
  remain": it answers every page request with a successful page whose flag says whether
  records lie beyond that page. \<open>pagesNeeded T\<close> is \<open>ceil(T / P)\<close> for the page size
  \<open>P = CHUNK_SIZE\<close>.
\<close>

definition reports_remaining :: "nat \<Rightarrow> (nat \<Rightarrow> page_request \<Rightarrow> 'n fetch_result) \<Rightarrow> bool" where
  "reports_remaining T ep =
     (\<forall>i payload off. \<exists>c. ep i (pageRequest payload off) = Json c \<and> success c
         \<and> (hasMore c \<longleftrightarrow> off + CHUNK_SIZE < int T))"

definition pagesNeeded :: "nat \<Rightarrow> nat" where
  "pagesNeeded T = nat \<lceil>rat_of_nat T / rat_of_int CHUNK_SIZE\<rceil>"

text \<open>An endpoint whose pages never report a negative \<^verbatim>\<open>fetchedCount\<close>.\<close>

definition counts_nonnegative :: "(nat \<Rightarrow> page_request \<Rightarrow> 'n fetch_result) \<Rightarrow> bool" where
  "counts_nonnegative ep = (\<forall>i q. 0 \<le> fetched_of (ep i q))"

text \<open>
  The artifact of section 6: a text file whose first line is the comma-joined field names,
  followed by one line per record, its fields comma-joined in the same fixed order, nothing
  quoted and nothing escaped. A blob made of text parts holds their concatenation.
\<close>

definition fieldNames :: "string list" where
  "fieldNames = [''date'', ''time'', ''latitude'', ''longitude'', ''probe_temperature_f'', ''transit'']"

fun joinComma :: "string list \<Rightarrow> string" where
  "joinComma [] = []"
| "joinComma [f] = f"
| "joinComma (f # g # fs) = f @ '','' @ joinComma (g # fs)"

definition recordFields :: "('n \<Rightarrow> string) \<Rightarrow> 'n TemperaturePoint \<Rightarrow> string list" where
  "recordFields str r =
     [date r, time r, str (latitude r), str (longitude r), str (probe_temperature_f r), transit r]"

definition csvDocument :: "('n \<Rightarrow> string) \<Rightarrow> 'n TemperaturePoint list \<Rightarrow> string" where
  "csvDocument str rs =
     concat (map (\<lambda>l. l @ ''\<newline>'')
       (joinComma fieldNames # map (\<lambda>r. joinComma (recordFields str r)) rs))"

definition blobText :: "string list \<Rightarrow> string" where
  "blobText parts = concat parts"

section \<open>Example endpoints and sessions\<close>

text \<open>
  Modelled from the spec: the paginated query endpoint of section 6, which is outside the
  component. Over a table of rows it answers a request with the rows from \<^verbatim>\<open>offset\<close> on,
  at most \<^verbatim>\<open>limit\<close> of them, their number, whether rows remain beyond the page, and the
  size of the table.
\<close>

definition pagedEndpoint :: "'n TemperaturePoint list \<Rightarrow> nat \<Rightarrow> page_request \<Rightarrow> 'n fetch_result" where
  "pagedEndpoint rows i q =
     (let off = (case offset q of None \<Rightarrow> 0 | Some n \<Rightarrow> n);
          lim = (case limit q of None \<Rightarrow> 0 | Some n \<Rightarrow> n);
          page = take (nat lim) (drop (nat off) rows)
      in Json \<lparr> success = True, error = None, data = page, fetchedCount = int (length page),
                hasMore = (off + lim < int (length rows)), total_f = Some (int (length rows)) \<rparr>)"

text \<open>
  An endpoint that plays a script: the \<open>i\<close>-th request of the session gets the \<open>i\<close>-th
  result; \<^verbatim>\<open>fetch\<close> rejects once the script is over.
\<close>

definition scripted :: "'n fetch_result list \<Rightarrow> nat \<Rightarrow> page_request \<Rightarrow> 'n fetch_result" where
  "scripted rs i q = (if i < length rs then rs ! i else Rejects ''Failed to fetch'')"

definition okPage :: "'n TemperaturePoint list \<Rightarrow> bool \<Rightarrow> int \<Rightarrow> 'n fetch_result" where
  "okPage rows further n =
     Json \<lparr> success = True, error = None, data = rows, fetchedCount = int (length rows),
            hasMore = further, total_f = Some n \<rparr>"

text \<open>
  Two configurations, three rows (the numbers of a row are carried as their text, and
  \<open>id\<close> stands for the conversion to text; the third row has a comma inside a field) and
  a session that has chosen the date range of July 2024.
\<close>

definition exampleConfig :: config where
  "exampleConfig = \<lparr> supabaseUrl = Some ''https://project.supabase.co'',
                     supabaseAnonKey = Some ''anon-key'' \<rparr>"

definition noUrlConfig :: config where
  "noUrlConfig = \<lparr> supabaseUrl = None, supabaseAnonKey = Some ''anon-key'' \<rparr>"

definition rowA :: "string TemperaturePoint" where
  "rowA = \<lparr> date = ''2024-07-01'', time = ''08:15:00'', latitude = ''33.7756'',
            longitude = ''-84.3963'', probe_temperature_f = ''81.5'', transit = ''walking'' \<rparr>"

definition rowB :: "string TemperaturePoint" where
  "rowB = \<lparr> date = ''2024-07-01'', time = ''08:15:05'', latitude = ''33.7757'',
            longitude = ''-84.3961'', probe_temperature_f = ''81.7'', transit = ''walking'' \<rparr>"

definition rowC :: "string TemperaturePoint" where
  "rowC = \<lparr> date = ''2024-07-02'', time = ''17:40:10'', latitude = ''33.749'',
            longitude = ''-84.388'', probe_temperature_f = ''90'', transit = ''bus, then walking'' \<rparr>"

definition julyState :: "string dashboard" where
  "julyState = onEndDateChange ''2024-07-31'' (onStartDateChange ''2024-07-01'' initial)"

text \<open>
  Scripts for whole sessions: the answer to the preview first, the pages next. In the
  first every request succeeds, and the second page has no rows; in the second the request
  for the second page is answered with status 500.
\<close>

definition threeRowScript :: "string fetch_result list" where
  "threeRowScript =
     [okPage [rowA] True 3, okPage [rowA, rowB] True 3, okPage [] True 3, okPage [rowC] False 3]"

definition failingScript :: "string fetch_result list" where
  "failingScript =
     [okPage [rowA] True 3, okPage [rowA, rowB] True 3, HttpFailure 500 ''Internal Server Error'',
      okPage [rowC] False 3]"

text \<open>
  The states after the preview (over a script, over the empty table, over a table of
  12000 rows) and after the download that follows.
\<close>

definition previewed :: "string fetch_result list \<Rightarrow> string dashboard" where
  "previewed rs = previewDownload id exampleConfig (scripted rs) julyState"

definition previewedEmpty :: "string dashboard" where
  "previewedEmpty = previewDownload id exampleConfig (pagedEndpoint []) julyState"

definition bigTable :: "string TemperaturePoint list" where
  "bigTable = replicate 12000 rowA"

definition previewedBig :: "string dashboard" where
  "previewedBig = previewDownload id exampleConfig (pagedEndpoint bigTable) julyState"

definition completedRun :: "string dashboard" where
  "completedRun =
     the (executeDownload 3 id id exampleConfig (scripted threeRowScript) (previewed threeRowScript))"

definition failedRun :: "string dashboard" where
  "failedRun =
     the (executeDownload 3 id id exampleConfig (scripted failingScript) (previewed failingScript))"

definition emptyRun :: "string dashboard" where
  "emptyRun = the (executeDownload 1 id id exampleConfig (pagedEndpoint []) previewedEmpty)"

section \<open>Month and date range exclude each other\<close>

lemma apply_filter_op_exclusive:
  "\<not> (month_set s \<and> date_set s) \<Longrightarrow>
     \<not> (month_set (apply_filter_op s f) \<and> date_set (apply_filter_op s f))"
  by (cases f)
     (auto simp: month_set_def date_set_def onMonthChange_def onStartDateChange_def
        onEndDateChange_def onStartTimeChange_def onEndTimeChange_def onTransportClick_def
        truthy_num_def truthy_str_def Let_def)

lemma foldl_filter_ops_exclusive:
  "\<not> (month_set s \<and> date_set s) \<Longrightarrow>
     \<not> (month_set (foldl apply_filter_op s fs) \<and> date_set (foldl apply_filter_op s fs))"
proof (induction fs arbitrary: s)
  case Nil
  then show ?case by simp
next
  case (Cons f fs)
  from Cons.prems have "\<not> (month_set (apply_filter_op s f) \<and> date_set (apply_filter_op s f))"
    by (rule apply_filter_op_exclusive)
  then show ?case using Cons.IH by simp
qed

lemma initial_exclusive: "\<not> (month_set (initial :: 'n dashboard) \<and> date_set (initial :: 'n dashboard))"
  by (simp add: month_set_def initial_def truthy_num_def)

text \<open>
  Claim C5. In the export request, the month selector and the date range exclude each
  other: the month handler, given a month, clears both dates; each date handler, given a
  date, clears the month; and after any sequence of filter operations on the freshly
  mounted component a month and a date are never both set.
\<close>

theorem month_and_date_range_exclusive:
  "(truthy_num m \<longrightarrow>
      downloadMonth (onMonthChange m s) = m
      \<and> downloadStartDate (onMonthChange m s) = [] \<and> downloadEndDate (onMonthChange m s) = [])
   \<and> (truthy_str v \<longrightarrow>
        downloadStartDate (onStartDateChange v s) = v \<and> downloadMonth (onStartDateChange v s) = None)
   \<and> (truthy_str v \<longrightarrow>
        downloadEndDate (onEndDateChange v s) = v \<and> downloadMonth (onEndDateChange v s) = None)
   \<and> \<not> (month_set (foldl apply_filter_op (initial :: 'n dashboard) fs)
          \<and> date_set (foldl apply_filter_op (initial :: 'n dashboard) fs))"
  using foldl_filter_ops_exclusive [OF initial_exclusive, of fs]
  by (simp add: onMonthChange_def onStartDateChange_def onEndDateChange_def Let_def)

text \<open>The theorem of claim C5 at a session that picks a date, then July, then a date again.\<close>

theorem month_and_date_range_exclusive_witness:
  "truthy_num (Some 7) \<and> truthy_str ''2024-07-01''
   \<and> downloadMonth (onMonthChange (Some 7) (initial :: int dashboard)) = Some 7
   \<and> downloadStartDate (onMonthChange (Some 7) (initial :: int dashboard)) = []
   \<and> downloadEndDate (onMonthChange (Some 7) (initial :: int dashboard)) = []
   \<and> downloadMonth (onStartDateChange ''2024-07-01'' (initial :: int dashboard)) = None
   \<and> downloadMonth (onEndDateChange ''2024-07-01'' (initial :: int dashboard)) = None
   \<and> \<not> (month_set (foldl apply_filter_op (initial :: int dashboard)
              [StartDateChange ''2024-07-01'', MonthChange (Some 7), EndDateChange ''2024-07-31''])
        \<and> date_set (foldl apply_filter_op (initial :: int dashboard)
              [StartDateChange ''2024-07-01'', MonthChange (Some 7), EndDateChange ''2024-07-31'']))"
proof -
  have m: "truthy_num (Some 7)"
    by (simp add: truthy_num_def)
  have v: "truthy_str ''2024-07-01''"
    by (simp add: truthy_str_def)
  note t = month_and_date_range_exclusive
    [of "Some 7" "initial :: int dashboard" "''2024-07-01''"
        "[StartDateChange ''2024-07-01'', MonthChange (Some 7), EndDateChange ''2024-07-31'']"]
  from t m v show ?thesis by blast
qed

section \<open>One pass of the paging loop\<close>

lemma csvRow_not_Nil: "csvRow str row \<noteq> []"
  by (simp add: csvRow_def)

lemma chunkText_Nil_iff: "chunkText str r = [] \<longleftrightarrow> rows_of r = []"
  by (cases "rows_of r") (simp_all add: chunkText_def csvRow_not_Nil)

lemma fetchChunk_Inl:
  assumes "fetchChunk fl str ep payload cnt v w = (Inl e, w1)"
  defines "x \<equiv> (pageRequest payload (offset_l v), ep (length (network w)) (pageRequest payload (offset_l v)))"
  shows "w1 = w\<lparr>network := network w @ [x]\<rparr> \<and> \<not> page_ok (snd x) \<and> e = thrown_by (snd x)"
  using assms
  by (auto simp: fetchChunk_def Let_def pageRequest_def page_ok_def thrown_by_def
      split: fetch_result.splits if_splits)

lemma fetchChunk_Inr:
  assumes "fetchChunk fl str ep payload cnt v w = (Inr v1, w1)"
  defines "x \<equiv> (pageRequest payload (offset_l v), ep (length (network w)) (pageRequest payload (offset_l v)))"
  shows "page_ok (snd x)
    \<and> v1 = \<lparr> blobParts = blobParts v @ filter (\<lambda>t. t \<noteq> []) [chunkText str (snd x)],
             offset_l = offset_l v + CHUNK_SIZE, hasMore_l = more_of (snd x),
             totalFetched = totalFetched v + fetched_of (snd x) \<rparr>
    \<and> w1 = w\<lparr>network := network w @ [x],
             downloadProgress := progressOf fl (totalFetched v + fetched_of (snd x)) cnt,
             progressLog := progressLog w @ [progressOf fl (totalFetched v + fetched_of (snd x)) cnt]\<rparr>"
  using assms
  by (auto simp: fetchChunk_def Let_def pageRequest_def page_ok_def chunkText_def rows_of_def
      more_of_def fetched_of_def
      split: fetch_result.splits if_splits)

lemma exchange_Suc:
  "exchange ep payload base off (Suc k) = exchange ep payload (Suc base) (off + CHUNK_SIZE) k"
  by (simp add: exchange_def algebra_simps)

lemma map_exchange_Suc:
  "map (exchange ep payload base off) [0..<Suc n] =
     exchange ep payload base off 0 # map (exchange ep payload (Suc base) (off + CHUNK_SIZE)) [0..<n]"
proof -
  have "[0..<Suc n] = 0 # map Suc [0..<n]"
    by (simp add: upt_conv_Cons map_Suc_upt del: upt_Suc)
  then show ?thesis
    by (simp add: exchange_Suc comp_def del: upt_Suc)
qed

lemma fetchChunk_network:
  "fetchChunk fl str ep payload cnt v w = (r, w1) \<Longrightarrow>
     network w1 = network w @ [exchange ep payload (length (network w)) (offset_l v) 0]
     \<and> (case r of Inl e \<Rightarrow> True | Inr v1 \<Rightarrow> offset_l v1 = offset_l v + CHUNK_SIZE)"
proof (cases r)
  case (Inl e)
  assume "fetchChunk fl str ep payload cnt v w = (r, w1)"
  with Inl show ?thesis
    using fetchChunk_Inl [of fl str ep payload cnt v w e w1] by (simp add: exchange_def)
next
  case (Inr v1)
  assume "fetchChunk fl str ep payload cnt v w = (r, w1)"
  with Inr show ?thesis
    using fetchChunk_Inr [of fl str ep payload cnt v w v1 w1] by (simp add: exchange_def)
qed

section \<open>The paging loop\<close>

lemma chunkLoop_done:
  "\<not> hasMore_l v \<Longrightarrow> chunkLoop fuel fl str ep payload cnt v w = Some (Inr v, w)"
  by (cases fuel) simp_all

lemma chunkLoop_Inr:
  "chunkLoop fuel fl str ep payload cnt v w = Some (Inr v', w') \<Longrightarrow>
     \<exists>xs. network w' = network w @ xs \<and> list_all (\<lambda>x. page_ok (snd x)) xs
       \<and> blobParts v' = blobParts v @ filter (\<lambda>t. t \<noteq> []) (map (\<lambda>x. chunkText str (snd x)) xs)
       \<and> totalFetched v' = totalFetched v + sum_list (map (\<lambda>x. fetched_of (snd x)) xs)
       \<and> \<not> hasMore_l v'
       \<and> alerts w' = alerts w \<and> saved w' = saved w \<and> exportRequest w' = exportRequest w
       \<and> downloadLoading w' = downloadLoading w"
proof (induction fuel arbitrary: v w)
  case 0
  then show ?case by (auto split: if_splits)
next
  case (Suc fuel)
  show ?case
  proof (cases "hasMore_l v")
    case False
    with Suc.prems show ?thesis by auto
  next
    case True
    obtain r w1 where f: "fetchChunk fl str ep payload cnt v w = (r, w1)"
      by (cases "fetchChunk fl str ep payload cnt v w")
    show ?thesis
    proof (cases r)
      case (Inl e)
      with Suc.prems True f show ?thesis by simp
    next
      case (Inr v1)
      with Suc.prems True f have rest: "chunkLoop fuel fl str ep payload cnt v1 w1 = Some (Inr v', w')"
        by simp
      note one = fetchChunk_Inr [OF f [unfolded Inr]]
      from Suc.IH [OF rest] obtain xs where xs:
        "network w' = network w1 @ xs" "list_all (\<lambda>x. page_ok (snd x)) xs"
        "blobParts v' = blobParts v1 @ filter (\<lambda>t. t \<noteq> []) (map (\<lambda>x. chunkText str (snd x)) xs)"
        "totalFetched v' = totalFetched v1 + sum_list (map (\<lambda>x. fetched_of (snd x)) xs)"
        "\<not> hasMore_l v'" "alerts w' = alerts w1" "saved w' = saved w1"
        "exportRequest w' = exportRequest w1" "downloadLoading w' = downloadLoading w1"
        by blast
      define x where "x = (pageRequest payload (offset_l v),
        ep (length (network w)) (pageRequest payload (offset_l v)))"
      from one have v1: "blobParts v1 = blobParts v @ filter (\<lambda>t. t \<noteq> []) [chunkText str (snd x)]"
        "totalFetched v1 = totalFetched v + fetched_of (snd x)" "page_ok (snd x)"
        and w1: "network w1 = network w @ [x]" "alerts w1 = alerts w" "saved w1 = saved w"
        "exportRequest w1 = exportRequest w" "downloadLoading w1 = downloadLoading w"
        by (simp_all add: x_def exportRequest_def)
      have "network w' = network w @ (x # xs)"
        using xs(1) w1(1) by simp
      moreover have "list_all (\<lambda>x. page_ok (snd x)) (x # xs)"
        using xs(2) v1(3) by simp
      moreover have "blobParts v' = blobParts v @ filter (\<lambda>t. t \<noteq> []) (map (\<lambda>x. chunkText str (snd x)) (x # xs))"
        using xs(3) v1(1) by simp
      moreover have "totalFetched v' = totalFetched v + sum_list (map (\<lambda>x. fetched_of (snd x)) (x # xs))"
        using xs(4) v1(2) by simp
      ultimately show ?thesis
        using xs(5-9) w1(2-5) by metis
    qed
  qed
qed

lemma chunkLoop_Inl:
  "chunkLoop fuel fl str ep payload cnt v w = Some (Inl e, w') \<Longrightarrow>
     \<exists>xs x. network w' = network w @ xs @ [x] \<and> list_all (\<lambda>x. page_ok (snd x)) xs
       \<and> \<not> page_ok (snd x) \<and> e = thrown_by (snd x)
       \<and> alerts w' = alerts w \<and> saved w' = saved w \<and> exportRequest w' = exportRequest w
       \<and> downloadLoading w' = downloadLoading w"
proof (induction fuel arbitrary: v w)
  case 0
  then show ?case by (auto split: if_splits)
next
  case (Suc fuel)
  show ?case
  proof (cases "hasMore_l v")
    case False
    with Suc.prems show ?thesis by auto
  next
    case True
    obtain r w1 where f: "fetchChunk fl str ep payload cnt v w = (r, w1)"
      by (cases "fetchChunk fl str ep payload cnt v w")
    define x where "x = (pageRequest payload (offset_l v),
      ep (length (network w)) (pageRequest payload (offset_l v)))"
    show ?thesis
    proof (cases r)
      case (Inl e1)
      with Suc.prems True f have "e1 = e" "w1 = w'" by simp_all
      with fetchChunk_Inl [OF f [unfolded Inl]]
      have "network w' = network w @ [] @ [x]" "\<not> page_ok (snd x)" "e = thrown_by (snd x)"
        "alerts w' = alerts w" "saved w' = saved w" "exportRequest w' = exportRequest w"
        "downloadLoading w' = downloadLoading w"
        by (auto simp: x_def exportRequest_def)
      moreover have "list_all (\<lambda>x. page_ok (snd x)) ([] :: (page_request \<times> 'a fetch_result) list)"
        by simp
      ultimately show ?thesis by blast
    next
      case (Inr v1)
      with Suc.prems True f have rest: "chunkLoop fuel fl str ep payload cnt v1 w1 = Some (Inl e, w')"
        by simp
      from Suc.IH [OF rest] obtain xs y where xs:
        "network w' = network w1 @ xs @ [y]" "list_all (\<lambda>x. page_ok (snd x)) xs"
        "\<not> page_ok (snd y)" "e = thrown_by (snd y)"
        "alerts w' = alerts w1" "saved w' = saved w1"
        "exportRequest w' = exportRequest w1" "downloadLoading w' = downloadLoading w1"
        by blast
      from fetchChunk_Inr [OF f [unfolded Inr]] have "page_ok (snd x)"
        and w1: "network w1 = network w @ [x]" "alerts w1 = alerts w" "saved w1 = saved w"
        "exportRequest w1 = exportRequest w" "downloadLoading w1 = downloadLoading w"
        by (simp_all add: x_def exportRequest_def)
      have "network w' = network w @ (x # xs) @ [y]"
        using xs(1) w1(1) by simp
      moreover have "list_all (\<lambda>x. page_ok (snd x)) (x # xs)"
        using xs(2) \<open>page_ok (snd x)\<close> by simp
      ultimately show ?thesis
        using xs(3-8) w1(2-5) by metis
    qed
  qed
qed

lemma chunkLoop_network:
  "chunkLoop fuel fl str ep payload cnt v w = Some (r, w') \<Longrightarrow>
     \<exists>n. network w' = network w @ map (exchange ep payload (length (network w)) (offset_l v)) [0..<n]
        \<and> (hasMore_l v \<longrightarrow> 0 < n)"
proof (induction fuel arbitrary: v w)
  case 0
  then have "network w' = network w @ map (exchange ep payload (length (network w)) (offset_l v)) [0..<0]"
    "\<not> hasMore_l v"
    by (auto split: if_splits)
  then show ?case by blast
next
  case (Suc fuel)
  show ?case
  proof (cases "hasMore_l v")
    case False
    with Suc.prems
    have "network w' = network w @ map (exchange ep payload (length (network w)) (offset_l v)) [0..<0]"
      by auto
    with False show ?thesis by blast
  next
    case True
    obtain r1 w1 where f: "fetchChunk fl str ep payload cnt v w = (r1, w1)"
      by (cases "fetchChunk fl str ep payload cnt v w")
    note one = fetchChunk_network [OF f]
    show ?thesis
    proof (cases r1)
      case (Inl e)
      with Suc.prems True f have "w' = w1" by simp
      with one
      have "network w' = network w @ map (exchange ep payload (length (network w)) (offset_l v)) [0..<Suc 0]"
        by simp
      then show ?thesis by blast
    next
      case (Inr v1)
      with Suc.prems True f have "chunkLoop fuel fl str ep payload cnt v1 w1 = Some (r, w')"
        by simp
      from Suc.IH [OF this] obtain n where
        "network w' = network w1 @ map (exchange ep payload (length (network w1)) (offset_l v1)) [0..<n]"
        by blast
      with one Inr
      have "network w' = network w @ map (exchange ep payload (length (network w)) (offset_l v)) [0..<Suc n]"
        by (simp add: map_exchange_Suc del: upt_Suc)
      then show ?thesis by blast
    qed
  qed
qed

lemma chunkLoop_returns:
  "k < fuel \<Longrightarrow>
   \<not> page_ok (snd (exchange ep payload (length (network w)) (offset_l v) k))
     \<or> \<not> more_of (snd (exchange ep payload (length (network w)) (offset_l v) k)) \<Longrightarrow>
   \<exists>r w'. chunkLoop fuel fl str ep payload cnt v w = Some (r, w')"
proof (induction fuel arbitrary: k v w)
  case 0
  then show ?case by simp
next
  case (Suc fuel)
  show ?case
  proof (cases "hasMore_l v")
    case False
    then show ?thesis by simp
  next
    case True
    obtain r1 w1 where f: "fetchChunk fl str ep payload cnt v w = (r1, w1)"
      by (cases "fetchChunk fl str ep payload cnt v w")
    show ?thesis
    proof (cases r1)
      case (Inl e)
      with True f show ?thesis by simp
    next
      case (Inr v1)
      note one = fetchChunk_Inr [OF f [unfolded Inr]]
      from one have v1: "offset_l v1 = offset_l v + CHUNK_SIZE"
        "hasMore_l v1 = more_of (snd (exchange ep payload (length (network w)) (offset_l v) 0))"
        "page_ok (snd (exchange ep payload (length (network w)) (offset_l v) 0))"
        and w1: "length (network w1) = Suc (length (network w))"
        by (simp_all add: exchange_def)
      have "\<exists>r w'. chunkLoop fuel fl str ep payload cnt v1 w1 = Some (r, w')"
      proof (cases k)
        case 0
        with Suc.prems(2) v1 have "\<not> hasMore_l v1" by simp
        then show ?thesis by (simp add: chunkLoop_done)
      next
        case (Suc j)
        with Suc.prems(1) have j: "j < fuel" by simp
        from Suc.prems(2) Suc v1(1) w1
        have "\<not> page_ok (snd (exchange ep payload (length (network w1)) (offset_l v1) j))
            \<or> \<not> more_of (snd (exchange ep payload (length (network w1)) (offset_l v1) j))"
          by (simp add: exchange_Suc)
        from Suc.IH [OF j this] show ?thesis .
      qed
      with True f Inr show ?thesis by simp
    qed
  qed
qed

section \<open>The outcomes of \<^verbatim>\<open>executeDownload\<close>\<close>

text \<open>
  A run that returns ended in one of four ways: without a preview, without a
  configuration, in the \<^verbatim>\<open>catch\<close> block after a page request that failed, or with the
  file saved.
\<close>

lemma executeDownload_outcomes:
  assumes run: "executeDownload fuel fl str cfg ep s = Some s'"
  obtains
    (no_preview) "downloadSummary s = None" "s' = s\<lparr>alerts := alerts s @ [NoPreview]\<rparr>"
  | (no_config) "downloadSummary s \<noteq> None" "configMissing cfg"
      "s' = s\<lparr>downloadLoading := False, downloadProgress := Fin 0,
               alerts := alerts s @ [FailedToDownload ConfigMissing]\<rparr>"
  | (failed) xs x where "downloadSummary s \<noteq> None" "\<not> configMissing cfg"
      "network s' = network s @ xs @ [x]" "list_all (\<lambda>x. page_ok (snd x)) xs"
      "\<not> page_ok (snd x)" "alerts s' = alerts s @ [FailedToDownload (thrown_by (snd x))]"
      "saved s' = saved s" "exportRequest s' = exportRequest s" "\<not> downloadLoading s'"
  | (completed) xs where "downloadSummary s \<noteq> None" "\<not> configMissing cfg"
      "network s' = network s @ xs" "list_all (\<lambda>x. page_ok (snd x)) xs"
      "saved s' = saved s @ [(downloadFilename s,
          csvHeader # filter (\<lambda>t. t \<noteq> []) (map (\<lambda>x. chunkText str (snd x)) xs))]"
      "alerts s' = alerts s @ [Downloaded (sum_list (map (\<lambda>x. fetched_of (snd x)) xs))]"
      "cleared s'" "\<not> downloadLoading s'" "downloadProgress s' = Fin 0"
proof (cases "downloadSummary s")
  case None
  with run have "s' = s\<lparr>alerts := alerts s @ [NoPreview]\<rparr>"
    by (simp add: executeDownload_def)
  with None show ?thesis by (rule no_preview)
next
  case (Some sm)
  show ?thesis
  proof (cases "configMissing cfg")
    case True
    with run Some have "s' = s\<lparr>downloadLoading := False, downloadProgress := Fin 0,
               alerts := alerts s @ [FailedToDownload ConfigMissing]\<rparr>"
      by (auto simp: executeDownload_def Let_def)
    with Some True show ?thesis by (intro no_config) simp_all
  next
    case False
    define s1 where "s1 = s\<lparr>downloadLoading := True, downloadProgress := Fin 0\<rparr>"
    define v0 where "v0 = \<lparr> blobParts = [csvHeader], offset_l = 0, hasMore_l = True,
                         totalFetched = 0 \<rparr>"
    from run Some False obtain r s2 where
      loop: "chunkLoop fuel fl str ep (downloadPayload s) (count sm) v0 s1 = Some (r, s2)"
      by (auto simp: executeDownload_def Let_def s1_def v0_def split: option.splits)
    have s1: "network s1 = network s" "alerts s1 = alerts s" "saved s1 = saved s"
      "exportRequest s1 = exportRequest s"
      by (simp_all add: s1_def exportRequest_def)
    show ?thesis
    proof (cases r)
      case (Inl e)
      with run Some False loop
      have s': "s' = s2\<lparr>alerts := alerts s2 @ [FailedToDownload e], downloadLoading := False\<rparr>"
        by (auto simp: executeDownload_def Let_def s1_def v0_def)
      from chunkLoop_Inl [OF loop [unfolded Inl]] obtain xs x where
        "network s2 = network s1 @ xs @ [x]" "list_all (\<lambda>x. page_ok (snd x)) xs"
        "\<not> page_ok (snd x)" "e = thrown_by (snd x)" "alerts s2 = alerts s1" "saved s2 = saved s1"
        "exportRequest s2 = exportRequest s1"
        by blast
      with s' s1 have "network s' = network s @ xs @ [x]" "list_all (\<lambda>x. page_ok (snd x)) xs"
        "\<not> page_ok (snd x)" "alerts s' = alerts s @ [FailedToDownload (thrown_by (snd x))]"
        "saved s' = saved s" "exportRequest s' = exportRequest s" "\<not> downloadLoading s'"
        by (simp_all add: exportRequest_def)
      with Some False show ?thesis by (intro failed) simp_all
    next
      case (Inr v)
      with run Some False loop
      have s': "s' = s2\<lparr>saved := saved s2 @ [(downloadFilename s, blobParts v)],
                             alerts := alerts s2 @ [Downloaded (totalFetched v)],
                             downloadStartDate := [], downloadEndDate := [],
                             downloadStartTime := [], downloadEndTime := [],
                             downloadTransport := None, downloadMonth := None,
                             downloadSummary := None, downloadProgress := Fin 0,
                             downloadLoading := False\<rparr>"
        by (auto simp: executeDownload_def Let_def s1_def v0_def)
      from chunkLoop_Inr [OF loop [unfolded Inr]] obtain xs where
        "network s2 = network s1 @ xs" "list_all (\<lambda>x. page_ok (snd x)) xs"
        "blobParts v = blobParts v0 @ filter (\<lambda>t. t \<noteq> []) (map (\<lambda>x. chunkText str (snd x)) xs)"
        "totalFetched v = totalFetched v0 + sum_list (map (\<lambda>x. fetched_of (snd x)) xs)"
        "alerts s2 = alerts s1" "saved s2 = saved s1"
        by blast
      with s' s1 have "network s' = network s @ xs" "list_all (\<lambda>x. page_ok (snd x)) xs"
        "saved s' = saved s @ [(downloadFilename s,
          csvHeader # filter (\<lambda>t. t \<noteq> []) (map (\<lambda>x. chunkText str (snd x)) xs))]"
        "alerts s' = alerts s @ [Downloaded (sum_list (map (\<lambda>x. fetched_of (snd x)) xs))]"
        "cleared s'" "\<not> downloadLoading s'" "downloadProgress s' = Fin 0"
        by (simp_all add: v0_def cleared_def exportRequest_def)
      with Some False show ?thesis by (intro completed) simp_all
    qed
  qed
qed

lemma executeDownload_network:
  assumes "executeDownload fuel fl str cfg ep s = Some s'"
  shows "sent s s' = map (exchange ep (downloadPayload s) (length (network s)) 0) [0..<length (sent s s')]"
    and "downloadSummary s \<noteq> None \<Longrightarrow> \<not> configMissing cfg \<Longrightarrow> sent s s' \<noteq> []"
proof -
  have "\<exists>n. network s' = network s @ map (exchange ep (downloadPayload s) (length (network s)) 0) [0..<n]
          \<and> (downloadSummary s \<noteq> None \<and> \<not> configMissing cfg \<longrightarrow> 0 < n)"
  proof (cases "downloadSummary s = None \<or> configMissing cfg")
    case True
    with assms
    have "network s' = network s @ map (exchange ep (downloadPayload s) (length (network s)) 0) [0..<0]"
      by (auto simp: executeDownload_def Let_def split: option.splits)
    with True show ?thesis by blast
  next
    case False
    then obtain sm where sm: "downloadSummary s = Some sm" and cfg: "\<not> configMissing cfg"
      by auto
    define s1 where "s1 = s\<lparr>downloadLoading := True, downloadProgress := Fin 0\<rparr>"
    define v0 where "v0 = \<lparr> blobParts = [csvHeader], offset_l = 0, hasMore_l = True,
                         totalFetched = 0 \<rparr>"
    from assms sm cfg obtain r s2 where
      loop: "chunkLoop fuel fl str ep (downloadPayload s) (count sm) v0 s1 = Some (r, s2)"
      and s2: "network s' = network s2"
      by (auto simp: executeDownload_def Let_def s1_def v0_def split: option.splits sum.splits)
    from chunkLoop_network [OF loop] s2 show ?thesis
      by (auto simp: s1_def v0_def)
  qed
  then obtain n where n: "network s' = network s @ map (exchange ep (downloadPayload s) (length (network s)) 0) [0..<n]"
    "downloadSummary s \<noteq> None \<and> \<not> configMissing cfg \<longrightarrow> 0 < n"
    by blast
  then have len: "length (sent s s') = n"
    by (simp add: sent_def)
  from n(1) show "sent s s' = map (exchange ep (downloadPayload s) (length (network s)) 0) [0..<length (sent s s')]"
    unfolding len by (simp add: sent_def)
  show "downloadSummary s \<noteq> None \<Longrightarrow> \<not> configMissing cfg \<Longrightarrow> sent s s' \<noteq> []"
    using n(2) len by auto
qed

lemma sent_offsets_distinct:
  assumes "executeDownload fuel fl str cfg ep s = Some s'"
  shows "distinct (map (\<lambda>x. offset (fst x)) (sent s s'))"
proof -
  have inj: "inj_on (\<lambda>k. Some (CHUNK_SIZE * int k)) (set [0..<length (sent s s')])"
    by (rule inj_onI) (simp add: CHUNK_SIZE_def)
  have "map (\<lambda>x. offset (fst x)) (sent s s')
      = map (\<lambda>x. offset (fst x)) (map (exchange ep (downloadPayload s) (length (network s)) 0) [0..<length (sent s s')])"
    using executeDownload_network(1) [OF assms] by simp
  also have "\<dots> = map (\<lambda>k. Some (CHUNK_SIZE * int k)) [0..<length (sent s s')]"
    by (simp add: exchange_def pageRequest_def comp_def)
  finally show ?thesis
    using inj by (simp add: distinct_map)
qed

lemma concat_filter_not_Nil: "concat (filter (\<lambda>t. t \<noteq> []) xs) = concat xs"
  by (induction xs) simp_all

lemma concat_chunkText:
  "concat (map (\<lambda>x. chunkText str (snd x)) xs) = concat (map (csvRow str) (concat (map (\<lambda>x. rows_of (snd x)) xs)))"
  by (induction xs) (simp_all add: chunkText_def)

lemma length_filter_chunkText:
  "length (filter (\<lambda>t. t \<noteq> []) (map (\<lambda>x. chunkText str (snd x)) xs))
     = length (filter (\<lambda>x. rows_of (snd x) \<noteq> []) xs)"
  by (induction xs) (simp_all add: chunkText_Nil_iff)

lemma completed_run:
  assumes run: "executeDownload fuel fl str cfg ep s = Some s'"
    and preview: "downloadSummary s \<noteq> None"
    and cfg: "\<not> configMissing cfg"
    and ok: "all_pages_ok s s'"
  shows "saved s' = saved s @ [(downloadFilename s,
           csvHeader # filter (\<lambda>t. t \<noteq> []) (map (\<lambda>x. chunkText str (snd x)) (sent s s')))]"
    and "alerts s' = alerts s @ [Downloaded (sum_list (map (\<lambda>x. fetched_of (snd x)) (sent s s')))]"
    and "cleared s'" and "\<not> downloadLoading s'"
proof -
  from run have "saved s' = saved s @ [(downloadFilename s,
           csvHeader # filter (\<lambda>t. t \<noteq> []) (map (\<lambda>x. chunkText str (snd x)) (sent s s')))]
      \<and> alerts s' = alerts s @ [Downloaded (sum_list (map (\<lambda>x. fetched_of (snd x)) (sent s s')))]
      \<and> cleared s' \<and> \<not> downloadLoading s'"
  proof (cases rule: executeDownload_outcomes)
    case no_preview
    with preview show ?thesis by simp
  next
    case no_config
    with cfg show ?thesis by simp
  next
    case (failed xs x)
    with ok show ?thesis by (simp add: all_pages_ok_def sent_def)
  next
    case (completed xs)
    then show ?thesis by (simp add: sent_def)
  qed
  then show "saved s' = saved s @ [(downloadFilename s,
           csvHeader # filter (\<lambda>t. t \<noteq> []) (map (\<lambda>x. chunkText str (snd x)) (sent s s')))]"
    and "alerts s' = alerts s @ [Downloaded (sum_list (map (\<lambda>x. fetched_of (snd x)) (sent s s')))]"
    and "cleared s'" and "\<not> downloadLoading s'"
    by simp_all
qed

lemma failed_run:
  assumes run: "executeDownload fuel fl str cfg ep s = Some s'"
    and bad: "\<not> all_pages_ok s s'"
  shows "\<exists>xs x. sent s s' = xs @ [x] \<and> list_all (\<lambda>x. page_ok (snd x)) xs \<and> \<not> page_ok (snd x)
           \<and> alerts s' = alerts s @ [FailedToDownload (thrown_by (snd x))]"
    and "saved s' = saved s" and "exportRequest s' = exportRequest s" and "\<not> downloadLoading s'"
    and "downloadSummary s \<noteq> None" and "\<not> configMissing cfg"
proof -
  from run have "(\<exists>xs x. sent s s' = xs @ [x] \<and> list_all (\<lambda>x. page_ok (snd x)) xs \<and> \<not> page_ok (snd x)
           \<and> alerts s' = alerts s @ [FailedToDownload (thrown_by (snd x))])
      \<and> saved s' = saved s \<and> exportRequest s' = exportRequest s \<and> \<not> downloadLoading s'
      \<and> downloadSummary s \<noteq> None \<and> \<not> configMissing cfg"
  proof (cases rule: executeDownload_outcomes)
    case no_preview
    with bad show ?thesis by (simp add: all_pages_ok_def sent_def)
  next
    case no_config
    with bad show ?thesis by (simp add: all_pages_ok_def sent_def)
  next
    case (failed xs x)
    then show ?thesis by (simp add: sent_def)
  next
    case (completed xs)
    with bad show ?thesis by (simp add: all_pages_ok_def sent_def)
  qed
  then show "\<exists>xs x. sent s s' = xs @ [x] \<and> list_all (\<lambda>x. page_ok (snd x)) xs \<and> \<not> page_ok (snd x)
           \<and> alerts s' = alerts s @ [FailedToDownload (thrown_by (snd x))]"
    and "saved s' = saved s" and "exportRequest s' = exportRequest s" and "\<not> downloadLoading s'"
    and "downloadSummary s \<noteq> None" and "\<not> configMissing cfg"
    by simp_all
qed

text \<open>
  A run returns as soon as the fuel reaches past the first page whose request fails or
  whose answer reports that no more pages remain.
\<close>

lemma executeDownload_returns:
  assumes "k < fuel"
    and "\<not> page_ok (snd (exchange ep (downloadPayload s) (length (network s)) 0 k))
      \<or> \<not> more_of (snd (exchange ep (downloadPayload s) (length (network s)) 0 k))"
  shows "\<exists>s'. executeDownload fuel fl str cfg ep s = Some s'"
proof (cases "downloadSummary s")
  case None
  then show ?thesis by (simp add: executeDownload_def)
next
  case (Some sm)
  define s1 where "s1 = s\<lparr>downloadLoading := True, downloadProgress := Fin 0\<rparr>"
  define v0 where "v0 = \<lparr> blobParts = [csvHeader], offset_l = 0, hasMore_l = True,
                       totalFetched = 0 \<rparr>"
  from assms(2)
  have "\<not> page_ok (snd (exchange ep (downloadPayload s) (length (network s1)) (offset_l v0) k))
      \<or> \<not> more_of (snd (exchange ep (downloadPayload s) (length (network s1)) (offset_l v0) k))"
    by (simp add: s1_def v0_def)
  from chunkLoop_returns [OF assms(1) this, of fl str "count sm"]
  obtain r w' where "chunkLoop fuel fl str ep (downloadPayload s) (count sm) v0 s1 = Some (r, w')"
    by blast
  with Some show ?thesis
    by (cases r) (simp_all add: executeDownload_def Let_def s1_def v0_def)
qed

section \<open>The artifact as a CSV document\<close>

lemma csvRow_joinComma: "csvRow str r = joinComma (recordFields str r) @ ''\<newline>''"
  by (simp add: csvRow_def recordFields_def)

lemma csvHeader_joinComma: "csvHeader = joinComma fieldNames @ ''\<newline>''"
  by (simp add: csvHeader_def fieldNames_def)

lemma csvDocument_rows: "csvDocument str rs = csvHeader @ concat (map (csvRow str) rs)"
proof -
  have "(\<lambda>r. joinComma (recordFields str r) @ ''\<newline>'') = csvRow str"
    by (rule ext) (simp add: csvRow_joinComma)
  then show ?thesis
    by (simp add: csvDocument_def csvHeader_joinComma comp_def)
qed

lemma csvDocument_first_line:
  "takeWhile (\<lambda>c. c \<noteq> CHR 0x0A) (csvDocument str rs)
     = ''date,time,latitude,longitude,probe_temperature_f,transit''"
  by (simp add: csvDocument_def fieldNames_def)

section \<open>The number of pages\<close>

lemma fetchChunk_remaining:
  assumes "reports_remaining T ep"
  shows "\<exists>v1 w1. fetchChunk fl str ep payload cnt v w = (Inr v1, w1)
           \<and> offset_l v1 = offset_l v + CHUNK_SIZE
           \<and> (hasMore_l v1 \<longleftrightarrow> offset_l v + CHUNK_SIZE < int T)
           \<and> network w1 = network w @ [exchange ep payload (length (network w)) (offset_l v) 0]"
proof -
  from assms obtain c where c: "ep (length (network w)) (pageRequest payload (offset_l v)) = Json c"
    "success c" "hasMore c \<longleftrightarrow> offset_l v + CHUNK_SIZE < int T"
    unfolding reports_remaining_def by blast
  then show ?thesis
    by (simp add: fetchChunk_def Let_def pageRequest_def [symmetric] exchange_def)
qed

lemma chunkLoop_remaining:
  assumes ep: "reports_remaining T ep"
  shows "hasMore_l v \<Longrightarrow> int T \<le> offset_l v + CHUNK_SIZE * int (Suc m)
     \<Longrightarrow> m = 0 \<or> offset_l v + CHUNK_SIZE * int m < int T \<Longrightarrow> Suc m \<le> fuel
     \<Longrightarrow> \<exists>v' w'. chunkLoop fuel fl str ep payload cnt v w = Some (Inr v', w')
           \<and> network w' = network w @ map (exchange ep payload (length (network w)) (offset_l v)) [0..<Suc m]"
proof (induction m arbitrary: v w fuel)
  case 0
  from 0(4) obtain k where fuel: "fuel = Suc k" by (cases fuel) auto
  from fetchChunk_remaining [OF ep, of fl str payload cnt v w] obtain v1 w1 where
    f: "fetchChunk fl str ep payload cnt v w = (Inr v1, w1)"
    and v1: "hasMore_l v1 \<longleftrightarrow> offset_l v + CHUNK_SIZE < int T"
    and w1: "network w1 = network w @ [exchange ep payload (length (network w)) (offset_l v) 0]"
    by blast
  from v1 0(2) have "\<not> hasMore_l v1" by simp
  then have "chunkLoop k fl str ep payload cnt v1 w1 = Some (Inr v1, w1)"
    by (rule chunkLoop_done)
  with f 0(1) fuel w1 show ?case by simp
next
  case (Suc m)
  from Suc.prems(4) obtain k where fuel: "fuel = Suc k" and k: "Suc m \<le> k" by (cases fuel) auto
  have pos: "0 < CHUNK_SIZE" by (simp add: CHUNK_SIZE_def)
  from fetchChunk_remaining [OF ep, of fl str payload cnt v w] obtain v1 w1 where
    f: "fetchChunk fl str ep payload cnt v w = (Inr v1, w1)"
    and off: "offset_l v1 = offset_l v + CHUNK_SIZE"
    and v1: "hasMore_l v1 \<longleftrightarrow> offset_l v + CHUNK_SIZE < int T"
    and w1: "network w1 = network w @ [exchange ep payload (length (network w)) (offset_l v) 0]"
    by blast
  from Suc.prems(3) have below: "offset_l v + CHUNK_SIZE * int (Suc m) < int T" by simp
  have "offset_l v + CHUNK_SIZE \<le> offset_l v + CHUNK_SIZE * int (Suc m)"
    using pos by (simp add: algebra_simps)
  with below v1 have more: "hasMore_l v1" by simp
  have a: "int T \<le> offset_l v1 + CHUNK_SIZE * int (Suc m)"
    using Suc.prems(2) off by (simp add: algebra_simps)
  have b: "m = 0 \<or> offset_l v1 + CHUNK_SIZE * int m < int T"
    using below off by (simp add: algebra_simps)
  from Suc.IH [OF more a b k, of w1] obtain v' w' where
    rest: "chunkLoop k fl str ep payload cnt v1 w1 = Some (Inr v', w')"
    and net: "network w' = network w1 @ map (exchange ep payload (length (network w1)) (offset_l v1)) [0..<Suc m]"
    by blast
  from net w1 off
  have "network w' = network w @ map (exchange ep payload (length (network w)) (offset_l v)) [0..<Suc (Suc m)]"
    by (simp only: map_exchange_Suc [of ep payload "length (network w)" "offset_l v" "Suc m"])
       simp
  with rest f Suc.prems(1) fuel show ?case by simp
qed

lemma pagesNeeded_0: "pagesNeeded 0 = 0"
  by (simp add: pagesNeeded_def)

lemma pagesNeeded_bounds:
  "int T \<le> CHUNK_SIZE * int (pagesNeeded T)"
  "0 < T \<Longrightarrow> 0 < pagesNeeded T"
  "0 < T \<Longrightarrow> CHUNK_SIZE * (int (pagesNeeded T) - 1) < int T"
proof -
  define c where "c = \<lceil>rat_of_nat T / 5000\<rceil>"
  have c0: "0 \<le> c" by (simp add: c_def)
  have "rat_of_nat T / 5000 \<le> of_int c" by (simp add: c_def)
  then have "rat_of_nat T \<le> 5000 * of_int c" by simp
  then have "rat_of_int (int T) \<le> rat_of_int (5000 * c)" by simp
  then have up: "int T \<le> 5000 * c" by (simp only: of_int_le_iff)
  have "of_int c - 1 < rat_of_nat T / 5000"
    unfolding c_def by linarith
  then have "5000 * (of_int c - 1) < rat_of_nat T" by simp
  then have "rat_of_int (5000 * (c - 1)) < rat_of_int (int T)" by simp
  then have low: "5000 * (c - 1) < int T" by (simp only: of_int_less_iff)
  have n: "int (pagesNeeded T) = c"
    using c0 by (simp add: pagesNeeded_def c_def CHUNK_SIZE_def)
  show "int T \<le> CHUNK_SIZE * int (pagesNeeded T)"
    using up n by (simp add: CHUNK_SIZE_def)
  show "0 < T \<Longrightarrow> 0 < pagesNeeded T"
    using up n by (cases "pagesNeeded T") auto
  show "0 < T \<Longrightarrow> CHUNK_SIZE * (int (pagesNeeded T) - 1) < int T"
    using low n by (simp add: CHUNK_SIZE_def)
qed

lemma pagesNeeded_12000: "pagesNeeded 12000 = 3"
proof -
  have "\<lceil>(12000 :: rat) / 5000\<rceil> = 3"
    by (simp add: ceiling_eq_iff)
  then show ?thesis
    by (simp add: pagesNeeded_def CHUNK_SIZE_def)
qed

section \<open>Progress\<close>

lemma js_le_trans: "js_le x y \<Longrightarrow> js_le y z \<Longrightarrow> js_le x z"
  by (cases x; cases y; cases z) simp_all

lemma progressOf_positive_count:
  "cnt \<noteq> 0 \<Longrightarrow>
     progressOf fl t cnt =
       Fin (min (of_int \<lfloor>fl (fl (of_int t / of_int cnt) * 100) + 1 / 2\<rfloor>) 100)"
  by (simp add: progressOf_def js_div_def)

lemma progressOf_le_100: "js_le (progressOf fl t cnt) (Fin 100) \<longleftrightarrow> \<not> (cnt = 0 \<and> t = 0)"
  by (simp add: progressOf_def js_div_def)

lemma progressOf_mono:
  assumes fl: "mono fl" and cnt: "0 < cnt" and le: "t \<le> t'"
  shows "js_le (progressOf fl t cnt) (progressOf fl t' cnt)"
proof -
  have "(of_int t :: rat) / of_int cnt \<le> of_int t' / of_int cnt"
    using cnt le by (simp add: divide_right_mono)
  then have "fl (of_int t / of_int cnt) * 100 \<le> fl (of_int t' / of_int cnt) * 100"
    using fl by (simp add: monoD)
  then have "fl (fl (of_int t / of_int cnt) * 100) + 1 / 2 \<le> fl (fl (of_int t' / of_int cnt) * 100) + 1 / 2"
    using fl by (simp add: monoD)
  then have "\<lfloor>fl (fl (of_int t / of_int cnt) * 100) + 1 / 2\<rfloor> \<le> \<lfloor>fl (fl (of_int t' / of_int cnt) * 100) + 1 / 2\<rfloor>"
    by (rule floor_mono)
  then have "min (rat_of_int \<lfloor>fl (fl (of_int t / of_int cnt) * 100) + 1 / 2\<rfloor>) 100
      \<le> min (rat_of_int \<lfloor>fl (fl (of_int t' / of_int cnt) * 100) + 1 / 2\<rfloor>) 100"
    by (simp add: min_le_iff_disj)
  with cnt show ?thesis
    by (simp add: progressOf_positive_count)
qed

lemma chunkLoop_progress:
  assumes fl: "mono fl" and cnt: "0 < cnt" and ep: "counts_nonnegative ep"
  shows "chunkLoop fuel fl str ep payload cnt v w = Some (r, w') \<Longrightarrow>
     \<exists>ps. progressLog w' = progressLog w @ ps \<and> sorted_wrt js_le ps
       \<and> (\<forall>p \<in> set ps. js_le (progressOf fl (totalFetched v) cnt) p \<and> js_le p (Fin 100))"
proof (induction fuel arbitrary: v w)
  case 0
  then have "progressLog w' = progressLog w @ []"
    by (auto split: if_splits)
  then show ?case by force
next
  case (Suc fuel)
  show ?case
  proof (cases "hasMore_l v")
    case False
    with Suc.prems have "progressLog w' = progressLog w @ []" by auto
    then show ?thesis by force
  next
    case True
    obtain r1 w1 where f: "fetchChunk fl str ep payload cnt v w = (r1, w1)"
      by (cases "fetchChunk fl str ep payload cnt v w")
    show ?thesis
    proof (cases r1)
      case (Inl e)
      with Suc.prems True f have "w' = w1" by simp
      with fetchChunk_Inl [OF f [unfolded Inl]] have "progressLog w' = progressLog w @ []"
        by simp
      then show ?thesis by force
    next
      case (Inr v1)
      with Suc.prems True f have rest: "chunkLoop fuel fl str ep payload cnt v1 w1 = Some (r, w')"
        by simp
      define n where "n = fetched_of (ep (length (network w)) (pageRequest payload (offset_l v)))"
      define p1 where "p1 = progressOf fl (totalFetched v + n) cnt"
      from fetchChunk_Inr [OF f [unfolded Inr]]
      have v1: "totalFetched v1 = totalFetched v + n"
        and w1: "progressLog w1 = progressLog w @ [p1]"
        by (simp_all add: n_def p1_def)
      from ep have "0 \<le> n"
        by (simp add: n_def counts_nonnegative_def)
      then have first: "js_le (progressOf fl (totalFetched v) cnt) p1"
        unfolding p1_def by (intro progressOf_mono [OF fl cnt]) simp
      have top: "js_le p1 (Fin 100)"
        using cnt by (simp add: p1_def progressOf_le_100)
      from Suc.IH [OF rest] v1 obtain ps where ps: "progressLog w' = progressLog w1 @ ps"
        "sorted_wrt js_le ps" "\<forall>p \<in> set ps. js_le p1 p \<and> js_le p (Fin 100)"
        by (auto simp: p1_def)
      have "progressLog w' = progressLog w @ (p1 # ps)"
        using ps(1) w1 by simp
      moreover have "sorted_wrt js_le (p1 # ps)"
        using ps(2,3) by simp
      moreover have "\<forall>p \<in> set (p1 # ps). js_le (progressOf fl (totalFetched v) cnt) p \<and> js_le p (Fin 100)"
        using ps(3) first top by (auto intro: js_le_trans)
      ultimately show ?thesis by blast
    qed
  qed
qed

text \<open>
  With a positive preview count, a rounding that is monotone and page counts that are not
  negative, the progress values of a run never decrease and never exceed 100.
\<close>

lemma progress_with_positive_count:
  assumes run: "executeDownload fuel fl str cfg ep s = Some s'"
    and preview: "downloadSummary s = Some sm" and cnt: "0 < count sm"
    and fl: "mono fl" and ep: "counts_nonnegative ep"
  shows "\<exists>ps. progressLog s' = progressLog s @ ps \<and> sorted_wrt js_le ps
           \<and> list_all (\<lambda>p. js_le p (Fin 100)) ps"
proof (cases "configMissing cfg")
  case True
  with run preview have "progressLog s' = progressLog s @ []"
    by (auto simp: executeDownload_def Let_def)
  then show ?thesis by force
next
  case False
  define s1 where "s1 = s\<lparr>downloadLoading := True, downloadProgress := Fin 0\<rparr>"
  define v0 where "v0 = \<lparr> blobParts = [csvHeader], offset_l = 0, hasMore_l = True,
                       totalFetched = 0 \<rparr>"
  from run preview False obtain r s2 where
    loop: "chunkLoop fuel fl str ep (downloadPayload s) (count sm) v0 s1 = Some (r, s2)"
    and s2: "progressLog s' = progressLog s2"
    by (auto simp: executeDownload_def Let_def s1_def v0_def split: option.splits sum.splits)
  from chunkLoop_progress [OF fl cnt ep loop] s2 show ?thesis
    by (auto simp: s1_def list_all_iff)
qed

section \<open>The example sessions, evaluated\<close>

lemma julyState_eq:
  "julyState = initial\<lparr>downloadStartDate := ''2024-07-01'', downloadEndDate := ''2024-07-31''\<rparr>"
  by (simp add: julyState_def onEndDateChange_def onStartDateChange_def truthy_str_def initial_def)

lemma cfg_ok: "\<not> configMissing exampleConfig"
  by (simp add: configMissing_def exampleConfig_def truthy_opt_str_def)

lemma floor_rat_numeral: "\<lfloor>(numeral a :: rat) / numeral b\<rfloor> = numeral a div numeral b"
  using floor_divide_of_int_eq [of "numeral a" "numeral b", where ?'a = rat] by simp

lemmas example_defs =
  previewed_def previewedEmpty_def previewDownload_def julyState_eq initial_def truthy_num_def
  truthy_str_def truthy_opt_str_def or_str_def or_num_def configMissing_def exampleConfig_def noUrlConfig_def
  scripted_def pagedEndpoint_def threeRowScript_def failingScript_def okPage_def Let_def
  executeDownload_def fetchChunk_def downloadPayload_def downloadFilename_def sent_def
  CHUNK_SIZE_def progressOf_def js_div_def numeral_3_eq_3

lemma reports_remaining_pagedEndpoint: "reports_remaining (length rows) (pagedEndpoint rows)"
  by (simp add: reports_remaining_def pagedEndpoint_def pageRequest_def Let_def)

lemma run_returns: "r \<noteq> None \<Longrightarrow> r = Some (the r)"
  by simp

lemma completedRun_run:
  "executeDownload 3 id id exampleConfig (scripted threeRowScript) (previewed threeRowScript)
     = Some completedRun"
  unfolding completedRun_def by (rule run_returns) (simp add: example_defs)

lemma failedRun_run:
  "executeDownload 3 id id exampleConfig (scripted failingScript) (previewed failingScript)
     = Some failedRun"
  unfolding failedRun_def by (rule run_returns) (simp add: example_defs)

lemma emptyRun_run:
  "executeDownload 1 id id exampleConfig (pagedEndpoint []) previewedEmpty = Some emptyRun"
  unfolding emptyRun_def by (rule run_returns) (simp add: example_defs)

lemma previewed_summary:
  "downloadSummary (previewed threeRowScript) \<noteq> None"
  "downloadSummary (previewed failingScript) \<noteq> None"
  "map_option count (downloadSummary previewedEmpty) = Some 0"
  by (simp_all add: example_defs)

lemma completedRun_sent:
  "map snd (sent (previewed threeRowScript) completedRun)
     = [okPage [rowA, rowB] True 3, okPage [] True 3, okPage [rowC] False 3]"
  "map (\<lambda>x. offset (fst x)) (sent (previewed threeRowScript) completedRun)
     = [Some 0, Some 5000, Some 10000]"
  by (simp_all add: completedRun_def example_defs)

lemma failedRun_sent:
  "map snd (sent (previewed failingScript) failedRun)
     = [okPage [rowA, rowB] True 3, HttpFailure 500 ''Internal Server Error'']"
  "map (\<lambda>x. offset (fst x)) (sent (previewed failingScript) failedRun) = [Some 0, Some 5000]"
  by (simp_all add: failedRun_def example_defs)

lemma emptyRun_sent:
  "map snd (sent previewedEmpty emptyRun) = [pagedEndpoint [] 1 (pageRequest (downloadPayload previewedEmpty) 0)]"
  "map (\<lambda>x. offset (fst x)) (sent previewedEmpty emptyRun) = [Some 0]"
  by (simp_all add: emptyRun_def example_defs pageRequest_def)

lemma all_pages_ok_map: "all_pages_ok s s' = list_all page_ok (map snd (sent s s'))"
  by (simp add: all_pages_ok_def list_all_iff)

lemma received_map: "received s s' = concat (map rows_of (map snd (sent s s')))"
  by (simp add: received_def comp_def)

lemma examples_ok:
  "all_pages_ok (previewed threeRowScript) completedRun"
  "\<not> all_pages_ok (previewed failingScript) failedRun"
  "all_pages_ok previewedEmpty emptyRun"
  by (simp_all add: all_pages_ok_map completedRun_sent failedRun_sent emptyRun_sent page_ok_def
      okPage_def pagedEndpoint_def Let_def)

lemma examples_received:
  "received (previewed threeRowScript) completedRun = [rowA, rowB, rowC]"
  "received previewedEmpty emptyRun = []"
  by (simp_all add: received_map completedRun_sent emptyRun_sent rows_of_def okPage_def
      pagedEndpoint_def Let_def)

section \<open>The claims about the export\<close>

text \<open>
  Claim C1 as it is stated fails on an empty dataset: the endpoint reports \<^verbatim>\<open>hasMore\<close>
  exactly when records remain (never, here), every request succeeds, and the export sends
  one page request, at offset 0, where \<open>ceil(0 / 5000)\<close> is 0.
\<close>

theorem empty_dataset_still_one_request:
  "reports_remaining 0 (pagedEndpoint ([] :: string TemperaturePoint list))
   \<and> executeDownload 1 id id exampleConfig (pagedEndpoint []) previewedEmpty = Some emptyRun
   \<and> map (\<lambda>x. offset (fst x)) (sent previewedEmpty emptyRun) = [Some 0]
   \<and> length (sent previewedEmpty emptyRun) = 1
   \<and> pagesNeeded 0 = 0"
proof -
  have "reports_remaining (length ([] :: string TemperaturePoint list)) (pagedEndpoint ([] :: string TemperaturePoint list))"
    by (rule reports_remaining_pagedEndpoint)
  moreover have "length (sent previewedEmpty emptyRun) = 1"
    using emptyRun_sent(2) [THEN arg_cong, of length] by simp
  ultimately show ?thesis
    using emptyRun_run emptyRun_sent(2) pagesNeeded_0 by simp
qed

text \<open>
  Claim C1, amended. Over a dataset of \<open>T\<close> records, when every page request succeeds and
  the endpoint reports \<^verbatim>\<open>hasMore\<close> exactly when records remain, a download that starts
  (a preview exists, the configuration is there) returns, given the fuel, after
  \<open>max 1 (ceil(T / P))\<close> page requests with \<open>P = 5000\<close>: \<open>ceil(T / P)\<close> of them when
  \<open>T > 0\<close>, one when \<open>T = 0\<close>. Their offsets are \<open>0, P, 2P, ...\<close>, each larger than
  the one before by exactly \<open>P\<close>, and each asks for \<open>P\<close> records.
\<close>

theorem page_requests_of_paged_export:
  assumes ep: "reports_remaining T ep"
    and preview: "downloadSummary s \<noteq> None"
    and cfg: "\<not> configMissing cfg"
    and fuel: "max 1 (pagesNeeded T) \<le> fuel"
  shows "\<exists>s'. executeDownload fuel fl str cfg ep s = Some s'
           \<and> length (sent s s') = max 1 (pagesNeeded T)
           \<and> map (\<lambda>x. offset (fst x)) (sent s s')
               = map (\<lambda>k. Some (CHUNK_SIZE * int k)) [0..<max 1 (pagesNeeded T)]
           \<and> list_all (\<lambda>x. limit (fst x) = Some CHUNK_SIZE) (sent s s')"
proof -
  define N where "N = max 1 (pagesNeeded T)"
  have "0 < N" by (simp add: N_def)
  then obtain m where m: "N = Suc m" by (cases N) simp_all
  from preview obtain sm where sm: "downloadSummary s = Some sm" by auto
  define s1 where "s1 = s\<lparr>downloadLoading := True, downloadProgress := Fin 0\<rparr>"
  define v0 where "v0 = \<lparr> blobParts = [csvHeader], offset_l = 0, hasMore_l = True,
                       totalFetched = 0 \<rparr>"
  have a: "int T \<le> offset_l v0 + CHUNK_SIZE * int (Suc m)"
  proof -
    have "int T \<le> CHUNK_SIZE * int (pagesNeeded T)" by (rule pagesNeeded_bounds)
    also have "\<dots> \<le> CHUNK_SIZE * int N"
      by (simp add: N_def CHUNK_SIZE_def)
    finally show ?thesis by (simp add: m v0_def)
  qed
  have b: "m = 0 \<or> offset_l v0 + CHUNK_SIZE * int m < int T"
  proof (cases "m = 0")
    case False
    with m N_def have N: "N = pagesNeeded T"
      by (auto simp: max_def split: if_splits)
    with False m have T: "0 < T"
      by (cases "T = 0") (simp_all add: pagesNeeded_0)
    from pagesNeeded_bounds(3) [OF T] show ?thesis
      by (simp add: N [symmetric] m v0_def)
  qed simp
  have more: "hasMore_l v0" by (simp add: v0_def)
  have enough: "Suc m \<le> fuel"
    using fuel unfolding N_def [symmetric] m .
  from chunkLoop_remaining [OF ep more a b enough, of fl str "downloadPayload s" "count sm" s1]
  obtain v' s2 where
    loop: "chunkLoop fuel fl str ep (downloadPayload s) (count sm) v0 s1 = Some (Inr v', s2)"
    and net: "network s2 = network s1 @ map (exchange ep (downloadPayload s) (length (network s1)) (offset_l v0)) [0..<Suc m]"
    by blast
  from loop sm cfg obtain s' where run: "executeDownload fuel fl str cfg ep s = Some s'"
    and s': "network s' = network s2"
    by (simp add: executeDownload_def Let_def s1_def v0_def)
  from net s' have sent: "sent s s' = map (exchange ep (downloadPayload s) (length (network s)) 0) [0..<N]"
    by (simp add: sent_def s1_def v0_def m)
  have "length (sent s s') = N"
    by (simp add: sent)
  moreover have "map (\<lambda>x. offset (fst x)) (sent s s') = map (\<lambda>k. Some (CHUNK_SIZE * int k)) [0..<N]"
    by (simp add: sent exchange_def pageRequest_def comp_def)
  moreover have "list_all (\<lambda>x. limit (fst x) = Some CHUNK_SIZE) (sent s s')"
    by (simp add: sent exchange_def pageRequest_def list_all_iff)
  ultimately show ?thesis
    using run unfolding N_def by blast
qed

text \<open>
  The theorem of claim C1 at the specification's example: 12000 records, three requests
  at the offsets 0, 5000 and 10000.
\<close>

theorem page_requests_of_paged_export_witness:
  "reports_remaining 12000 (pagedEndpoint bigTable)
   \<and> downloadSummary previewedBig \<noteq> None
   \<and> \<not> configMissing exampleConfig
   \<and> max 1 (pagesNeeded 12000) \<le> 3
   \<and> (\<exists>s'. executeDownload 3 id id exampleConfig (pagedEndpoint bigTable) previewedBig = Some s'
         \<and> length (sent previewedBig s') = 3
         \<and> map (\<lambda>x. offset (fst x)) (sent previewedBig s') = [Some 0, Some 5000, Some 10000]
         \<and> list_all (\<lambda>x. limit (fst x) = Some 5000) (sent previewedBig s'))"
proof -
  have ep: "reports_remaining 12000 (pagedEndpoint bigTable)"
    using reports_remaining_pagedEndpoint [of bigTable] by (simp add: bigTable_def)
  have preview: "downloadSummary previewedBig \<noteq> None"
    by (simp add: previewedBig_def bigTable_def example_defs)
  have fuel: "max 1 (pagesNeeded 12000) \<le> 3"
    by (simp add: pagesNeeded_12000)
  have upt: "[0..<3] = [0, 1, 2]"
    by (simp add: upt_rec)
  from page_requests_of_paged_export [OF ep preview cfg_ok fuel, of id id]
  have "\<exists>s'. executeDownload 3 id id exampleConfig (pagedEndpoint bigTable) previewedBig = Some s'
         \<and> length (sent previewedBig s') = 3
         \<and> map (\<lambda>x. offset (fst x)) (sent previewedBig s') = [Some 0, Some 5000, Some 10000]
         \<and> list_all (\<lambda>x. limit (fst x) = Some 5000) (sent previewedBig s')"
    by (simp add: pagesNeeded_12000 upt CHUNK_SIZE_def)
  with ep preview cfg_ok fuel show ?thesis by blast
qed

text \<open>
  Claim C2. In a run of \<^verbatim>\<open>executeDownload\<close> in which every page request succeeds, the
  data fragments appended to the buffer after the header, concatenated in the order in
  which they were appended, are one line for each record the endpoint returned over all
  pages, in the order in which it returned them: the record's six fields joined by commas
  and ended by a line feed, as the specification words the encoding. No record is moved,
  repeated or left out. The pages are the endpoint's answers to the requests for the
  offsets \<open>0, P, 2P, ...\<close>, one answer for each.
\<close>

theorem export_encodes_all_records:
  assumes run: "executeDownload fuel fl str cfg ep s = Some s'"
    and preview: "downloadSummary s \<noteq> None"
    and cfg: "\<not> configMissing cfg"
    and ok: "all_pages_ok s s'"
  shows "\<exists>name fragments. saved s' = saved s @ [(name, csvHeader # fragments)]
           \<and> concat fragments
               = concat (map (\<lambda>r. joinComma (recordFields str r) @ ''\<newline>'') (received s s'))
           \<and> sent s s' = map (exchange ep (downloadPayload s) (length (network s)) 0)
                            [0..<length (sent s s')]"
proof -
  define fragments where
    "fragments = filter (\<lambda>t. t \<noteq> []) (map (\<lambda>x. chunkText str (snd x)) (sent s s'))"
  have line: "csvRow str = (\<lambda>r. joinComma (recordFields str r) @ ''\<newline>'')"
    by (rule ext) (rule csvRow_joinComma)
  have "saved s' = saved s @ [(downloadFilename s, csvHeader # fragments)]"
    unfolding fragments_def by (rule completed_run(1) [OF run preview cfg ok])
  moreover have "concat fragments = concat (map (csvRow str) (received s s'))"
    by (simp add: fragments_def concat_filter_not_Nil concat_chunkText received_def)
  then have "concat fragments
      = concat (map (\<lambda>r. joinComma (recordFields str r) @ ''\<newline>'') (received s s'))"
    unfolding line .
  moreover note executeDownload_network(1) [OF run]
  ultimately show ?thesis by blast
qed

text \<open>
  The theorem of claim C2 at the session of three rows over three pages: the fragments
  hold the three lines, in the order of the rows.
\<close>

theorem export_encodes_all_records_witness:
  "executeDownload 3 id id exampleConfig (scripted threeRowScript) (previewed threeRowScript)
     = Some completedRun
   \<and> downloadSummary (previewed threeRowScript) \<noteq> None
   \<and> \<not> configMissing exampleConfig
   \<and> all_pages_ok (previewed threeRowScript) completedRun
   \<and> received (previewed threeRowScript) completedRun = [rowA, rowB, rowC]
   \<and> (\<exists>name fragments.
         saved completedRun = saved (previewed threeRowScript) @ [(name, csvHeader # fragments)]
         \<and> concat fragments =
              ''2024-07-01,08:15:00,33.7756,-84.3963,81.5,walking\<newline>''
              @ ''2024-07-01,08:15:05,33.7757,-84.3961,81.7,walking\<newline>''
              @ ''2024-07-02,17:40:10,33.749,-84.388,90,bus, then walking\<newline>'')"
proof -
  have lines: "concat (map (\<lambda>r. joinComma (recordFields id r) @ ''\<newline>'') [rowA, rowB, rowC]) =
        ''2024-07-01,08:15:00,33.7756,-84.3963,81.5,walking\<newline>''
        @ ''2024-07-01,08:15:05,33.7757,-84.3961,81.7,walking\<newline>''
        @ ''2024-07-02,17:40:10,33.749,-84.388,90,bus, then walking\<newline>''"
    by (simp add: recordFields_def rowA_def rowB_def rowC_def)
  from export_encodes_all_records
    [OF completedRun_run previewed_summary(1) cfg_ok examples_ok(1)]
  obtain name fragments where
    "saved completedRun = saved (previewed threeRowScript) @ [(name, csvHeader # fragments)]"
    "concat fragments = concat (map (\<lambda>r. joinComma (recordFields id r) @ ''\<newline>'')
        (received (previewed threeRowScript) completedRun))"
    by blast
  then have "\<exists>name fragments.
         saved completedRun = saved (previewed threeRowScript) @ [(name, csvHeader # fragments)]
         \<and> concat fragments =
              ''2024-07-01,08:15:00,33.7756,-84.3963,81.5,walking\<newline>''
              @ ''2024-07-01,08:15:05,33.7757,-84.3961,81.7,walking\<newline>''
              @ ''2024-07-02,17:40:10,33.749,-84.388,90,bus, then walking\<newline>''"
    unfolding examples_received(1) lines by blast
  with completedRun_run previewed_summary(1) cfg_ok examples_ok(1) examples_received(1)
  show ?thesis by blast
qed

text \<open>
  Claim C3. When a page request of an export fails (the promise rejects, the status is
  not 2xx, or the body says \<^verbatim>\<open>success: false\<close>), that request is the last one the export
  sends and every request before it succeeded; no offset is requested twice, so nothing is
  retried; the error is alerted to the user; no file is saved (the fragments, locals of
  the block that threw, are gone); and the loading state ends.
\<close>

theorem failed_page_aborts_export:
  assumes run: "executeDownload fuel fl str cfg ep s = Some s'"
    and bad: "\<not> all_pages_ok s s'"
  shows "sent s s' \<noteq> [] \<and> \<not> page_ok (snd (last (sent s s')))
    \<and> list_all (\<lambda>x. page_ok (snd x)) (butlast (sent s s'))
    \<and> distinct (map (\<lambda>x. offset (fst x)) (sent s s'))
    \<and> alerts s' = alerts s @ [FailedToDownload (thrown_by (snd (last (sent s s'))))]
    \<and> saved s' = saved s
    \<and> \<not> downloadLoading s'"
proof -
  from failed_run(1) [OF run bad] obtain xs x where
    "sent s s' = xs @ [x]" "list_all (\<lambda>x. page_ok (snd x)) xs" "\<not> page_ok (snd x)"
    "alerts s' = alerts s @ [FailedToDownload (thrown_by (snd x))]"
    by blast
  then show ?thesis
    using failed_run(2,4) [OF run bad] sent_offsets_distinct [OF run] by simp
qed

text \<open>
  The theorem of claim C3 at the specification's example: the second page request is
  answered with status 500.
\<close>

theorem failed_page_aborts_export_witness:
  "executeDownload 3 id id exampleConfig (scripted failingScript) (previewed failingScript)
     = Some failedRun
   \<and> \<not> all_pages_ok (previewed failingScript) failedRun
   \<and> map snd (sent (previewed failingScript) failedRun)
        = [okPage [rowA, rowB] True 3, HttpFailure 500 ''Internal Server Error'']
   \<and> map (\<lambda>x. offset (fst x)) (sent (previewed failingScript) failedRun) = [Some 0, Some 5000]
   \<and> alerts failedRun = alerts (previewed failingScript)
        @ [FailedToDownload (ChunkFetchFailed 500 ''Internal Server Error'')]
   \<and> saved failedRun = saved (previewed failingScript)
   \<and> \<not> downloadLoading failedRun"
proof -
  note t = failed_page_aborts_export [OF failedRun_run examples_ok(2)]
  have "snd (last (sent (previewed failingScript) failedRun))
      = last (map snd (sent (previewed failingScript) failedRun))"
    using t by (simp add: last_map)
  also have "\<dots> = HttpFailure 500 ''Internal Server Error''"
    by (simp only: failedRun_sent) simp
  finally have "thrown_by (snd (last (sent (previewed failingScript) failedRun)))
      = ChunkFetchFailed 500 ''Internal Server Error''"
    by (simp add: thrown_by_def)
  with t show ?thesis
    by (simp add: failedRun_run examples_ok(2) failedRun_sent)
qed

text \<open>
  Claim C4, at the input on which the code departs from it. After a preview that counted
  zero records, the download of the empty dataset computes its progress as
  \<^verbatim>\<open>Math.min(Math.round((0 / 0) * 100), 100)\<close>, which is NaN: the value emitted for the
  only page is not a number, and \<^verbatim>\<open>NaN <= 100\<close> is false.
\<close>

theorem zero_count_progress_is_NaN:
  "map_option count (downloadSummary previewedEmpty) = Some 0
   \<and> executeDownload 1 id id exampleConfig (pagedEndpoint []) previewedEmpty = Some emptyRun
   \<and> map (\<lambda>x. fetched_of (snd x)) (sent previewedEmpty emptyRun) = [0]
   \<and> progressLog emptyRun = [NaN]
   \<and> js_le NaN (Fin 100) = False"
proof -
  have "progressLog emptyRun = [NaN]"
    by (simp add: emptyRun_def example_defs)
  moreover have "map (\<lambda>x. fetched_of (snd x)) (sent previewedEmpty emptyRun) = [0]"
    using emptyRun_sent(1) [THEN arg_cong, of "map fetched_of"]
    by (simp add: fetched_of_def pagedEndpoint_def Let_def comp_def)
  ultimately show ?thesis
    using previewed_summary(3) emptyRun_run by simp
qed

text \<open>
  Claim C6. The file a completed export saves holds the CSV document of the records
  received: the line of the field names \<^verbatim>\<open>date,time,latitude,longitude,probe_temperature_f,transit\<close>,
  then one line per record with its fields joined by commas in that order, every field
  as it is, without quotes and without escapes. Its first line, up to the first line feed,
  is the line of the field names.
\<close>

theorem artifact_is_csv_document:
  assumes run: "executeDownload fuel fl str cfg ep s = Some s'"
    and preview: "downloadSummary s \<noteq> None"
    and cfg: "\<not> configMissing cfg"
    and ok: "all_pages_ok s s'"
  shows "\<exists>name parts. saved s' = saved s @ [(name, parts)]
           \<and> blobText parts = csvDocument str (received s s')
           \<and> takeWhile (\<lambda>c. c \<noteq> CHR 0x0A) (blobText parts)
               = ''date,time,latitude,longitude,probe_temperature_f,transit''"
proof -
  define parts where
    "parts = csvHeader # filter (\<lambda>t. t \<noteq> []) (map (\<lambda>x. chunkText str (snd x)) (sent s s'))"
  have "saved s' = saved s @ [(downloadFilename s, parts)]"
    unfolding parts_def by (rule completed_run(1) [OF run preview cfg ok])
  moreover have content: "blobText parts = csvDocument str (received s s')"
    by (simp add: parts_def blobText_def concat_filter_not_Nil concat_chunkText received_def
        csvDocument_rows)
  moreover have "takeWhile (\<lambda>c. c \<noteq> CHR 0x0A) (blobText parts)
               = ''date,time,latitude,longitude,probe_temperature_f,transit''"
    unfolding content by (rule csvDocument_first_line)
  ultimately show ?thesis by blast
qed

text \<open>
  The theorem of claim C6 at the session of three rows; the comma inside the last field
  of the third row reaches the file as it is.
\<close>

theorem artifact_is_csv_document_witness:
  "executeDownload 3 id id exampleConfig (scripted threeRowScript) (previewed threeRowScript)
     = Some completedRun
   \<and> downloadSummary (previewed threeRowScript) \<noteq> None
   \<and> \<not> configMissing exampleConfig
   \<and> all_pages_ok (previewed threeRowScript) completedRun
   \<and> (\<exists>name parts.
         saved completedRun = saved (previewed threeRowScript) @ [(name, parts)]
         \<and> blobText parts =
              ''date,time,latitude,longitude,probe_temperature_f,transit\<newline>''
              @ ''2024-07-01,08:15:00,33.7756,-84.3963,81.5,walking\<newline>''
              @ ''2024-07-01,08:15:05,33.7757,-84.3961,81.7,walking\<newline>''
              @ ''2024-07-02,17:40:10,33.749,-84.388,90,bus, then walking\<newline>'')"
proof -
  have doc: "csvDocument id [rowA, rowB, rowC] =
        ''date,time,latitude,longitude,probe_temperature_f,transit\<newline>''
        @ ''2024-07-01,08:15:00,33.7756,-84.3963,81.5,walking\<newline>''
        @ ''2024-07-01,08:15:05,33.7757,-84.3961,81.7,walking\<newline>''
        @ ''2024-07-02,17:40:10,33.749,-84.388,90,bus, then walking\<newline>''"
    by (simp add: csvDocument_def fieldNames_def recordFields_def rowA_def rowB_def rowC_def)
  from artifact_is_csv_document
    [OF completedRun_run previewed_summary(1) cfg_ok examples_ok(1)]
  obtain name parts where
    "saved completedRun = saved (previewed threeRowScript) @ [(name, parts)]"
    "blobText parts = csvDocument id (received (previewed threeRowScript) completedRun)"
    by blast
  then have "\<exists>name parts.
         saved completedRun = saved (previewed threeRowScript) @ [(name, parts)]
         \<and> blobText parts =
              ''date,time,latitude,longitude,probe_temperature_f,transit\<newline>''
              @ ''2024-07-01,08:15:00,33.7756,-84.3963,81.5,walking\<newline>''
              @ ''2024-07-01,08:15:05,33.7757,-84.3961,81.7,walking\<newline>''
              @ ''2024-07-02,17:40:10,33.749,-84.388,90,bus, then walking\<newline>''"
    unfolding examples_received(1) doc by blast
  with completedRun_run previewed_summary(1) cfg_ok examples_ok(1)
  show ?thesis by blast
qed

text \<open>
  Claim C7 as it is stated fails on a page without rows: the export of the empty dataset
  makes one round trip, which succeeds, and the buffer it saves holds one fragment, the
  header, not two.
\<close>

theorem zero_row_page_adds_no_fragment:
  "executeDownload 1 id id exampleConfig (pagedEndpoint []) previewedEmpty = Some emptyRun
   \<and> all_pages_ok previewedEmpty emptyRun
   \<and> length (sent previewedEmpty emptyRun) = 1
   \<and> saved previewedEmpty = []
   \<and> saved emptyRun = [(''temperature_data_2024-07-01_to_2024-07-31.csv'', [csvHeader])]"
proof -
  have "length (map snd (sent previewedEmpty emptyRun)) = 1"
    by (simp only: emptyRun_sent) simp
  moreover have "saved previewedEmpty = []"
    by (simp add: example_defs)
  moreover have "saved emptyRun = [(''temperature_data_2024-07-01_to_2024-07-31.csv'', [csvHeader])]"
    by (simp add: emptyRun_def example_defs)
  ultimately show ?thesis
    using emptyRun_run examples_ok(3) by simp
qed

text \<open>
  Claim C7, amended. At the end of an export in which every page succeeds, the buffer
  holds the header and one fragment for each page that returned at least one record
  (\<^verbatim>\<open>if (chunkCsv.length > 0)\<close> keeps the empty ones out); when all \<open>N\<close> pages returned
  records it holds \<open>N + 1\<close> fragments.
\<close>

theorem fragments_header_plus_nonempty_pages:
  assumes run: "executeDownload fuel fl str cfg ep s = Some s'"
    and preview: "downloadSummary s \<noteq> None"
    and cfg: "\<not> configMissing cfg"
    and ok: "all_pages_ok s s'"
  shows "\<exists>name fragments. saved s' = saved s @ [(name, csvHeader # fragments)]
           \<and> length fragments = length (filter (\<lambda>x. rows_of (snd x) \<noteq> []) (sent s s'))
           \<and> (list_all (\<lambda>x. rows_of (snd x) \<noteq> []) (sent s s')
                \<longrightarrow> length (csvHeader # fragments) = length (sent s s') + 1)"
proof -
  define fragments where
    "fragments = filter (\<lambda>t. t \<noteq> []) (map (\<lambda>x. chunkText str (snd x)) (sent s s'))"
  have "saved s' = saved s @ [(downloadFilename s, csvHeader # fragments)]"
    unfolding fragments_def by (rule completed_run(1) [OF run preview cfg ok])
  moreover have len: "length fragments = length (filter (\<lambda>x. rows_of (snd x) \<noteq> []) (sent s s'))"
    unfolding fragments_def by (rule length_filter_chunkText)
  moreover have "list_all (\<lambda>x. rows_of (snd x) \<noteq> []) (sent s s')
                \<longrightarrow> length (csvHeader # fragments) = length (sent s s') + 1"
    by (simp add: len list_all_iff)
  ultimately show ?thesis by blast
qed

text \<open>
  The theorem of claim C7 at the session of three pages of which the second is empty:
  the header and two fragments.
\<close>

theorem fragments_header_plus_nonempty_pages_witness:
  "executeDownload 3 id id exampleConfig (scripted threeRowScript) (previewed threeRowScript)
     = Some completedRun
   \<and> downloadSummary (previewed threeRowScript) \<noteq> None
   \<and> \<not> configMissing exampleConfig
   \<and> all_pages_ok (previewed threeRowScript) completedRun
   \<and> length (sent (previewed threeRowScript) completedRun) = 3
   \<and> (\<exists>name fragments.
         saved completedRun = saved (previewed threeRowScript) @ [(name, csvHeader # fragments)]
         \<and> length fragments = 2)"
proof -
  have pages: "map (\<lambda>x. rows_of (snd x)) (sent (previewed threeRowScript) completedRun)
      = [[rowA, rowB], [], [rowC]]"
    using completedRun_sent(1) [THEN arg_cong, of "map rows_of"]
    by (simp add: rows_of_def okPage_def comp_def)
  have "length (filter (\<lambda>x. rows_of (snd x) \<noteq> []) (sent (previewed threeRowScript) completedRun))
      = length (filter (\<lambda>r. r \<noteq> []) (map (\<lambda>x. rows_of (snd x)) (sent (previewed threeRowScript) completedRun)))"
    by (simp add: filter_map comp_def)
  also have "\<dots> = 2"
    by (simp only: pages) simp
  finally have two: "length (filter (\<lambda>x. rows_of (snd x) \<noteq> []) (sent (previewed threeRowScript) completedRun)) = 2" .
  have three: "length (sent (previewed threeRowScript) completedRun) = 3"
    using pages [THEN arg_cong, of length] by simp
  from fragments_header_plus_nonempty_pages
    [OF completedRun_run previewed_summary(1) cfg_ok examples_ok(1)]
  show ?thesis
    by (simp only: two three completedRun_run previewed_summary(1) cfg_ok examples_ok(1)
        simp_thms) blast
qed

text \<open>
  Claim C8. Without a preview summary, \<^verbatim>\<open>executeDownload\<close> returns at once, whatever the
  fuel: the state it leaves differs from the one it found by the alert alone, so no
  request is sent, no file saved and no cell of the export state changed. A preview that
  counted zero records does not stop it: the first page is requested, and when the
  endpoint answers it as the last page the file is saved.
\<close>

theorem download_needs_preview:
  "(downloadSummary s = None \<longrightarrow>
      executeDownload fuel fl str cfg ep s = Some (s\<lparr>alerts := alerts s @ [NoPreview]\<rparr>))
   \<and> (downloadSummary t = Some sm \<and> count sm = 0 \<and> \<not> configMissing cfg
        \<and> ep (length (network t)) (pageRequest (downloadPayload t) 0) = Json c
        \<and> success c \<and> \<not> hasMore c \<longrightarrow>
      (\<exists>t'. executeDownload (Suc fuel) fl str cfg ep t = Some t'
          \<and> map fst (sent t t') = [pageRequest (downloadPayload t) 0]
          \<and> length (saved t') = Suc (length (saved t))))"
proof (intro conjI impI)
  assume "downloadSummary s = None"
  then show "executeDownload fuel fl str cfg ep s = Some (s\<lparr>alerts := alerts s @ [NoPreview]\<rparr>)"
    by (simp add: executeDownload_def)
next
  assume a: "downloadSummary t = Some sm \<and> count sm = 0 \<and> \<not> configMissing cfg
        \<and> ep (length (network t)) (pageRequest (downloadPayload t) 0) = Json c
        \<and> success c \<and> \<not> hasMore c"
  define t1 where "t1 = t\<lparr>downloadLoading := True, downloadProgress := Fin 0\<rparr>"
  define v0 where "v0 = \<lparr> blobParts = [csvHeader], offset_l = 0, hasMore_l = True,
                       totalFetched = 0 \<rparr>"
  from a have "ep (length (network t1)) (pageRequest (downloadPayload t) (offset_l v0)) = Json c"
    by (simp add: t1_def v0_def)
  with a obtain v1 t2 where
    f: "fetchChunk fl str ep (downloadPayload t) (count sm) v0 t1 = (Inr v1, t2)"
    and v1: "\<not> hasMore_l v1"
    and t2: "network t2 = network t @ [(pageRequest (downloadPayload t) 0, Json c)]"
      "saved t2 = saved t"
    by (simp add: fetchChunk_def Let_def pageRequest_def [symmetric] t1_def v0_def)
  from v1 have "chunkLoop fuel fl str ep (downloadPayload t) (count sm) v1 t2 = Some (Inr v1, t2)"
    by (rule chunkLoop_done)
  with f have "chunkLoop (Suc fuel) fl str ep (downloadPayload t) (count sm) v0 t1 = Some (Inr v1, t2)"
    by (simp add: v0_def)
  with a obtain t' where "executeDownload (Suc fuel) fl str cfg ep t = Some t'"
    "network t' = network t2" "saved t' = saved t2 @ [(downloadFilename t, blobParts v1)]"
    by (simp add: executeDownload_def Let_def t1_def v0_def)
  with t2 show "\<exists>t'. executeDownload (Suc fuel) fl str cfg ep t = Some t'
          \<and> map fst (sent t t') = [pageRequest (downloadPayload t) 0]
          \<and> length (saved t') = Suc (length (saved t))"
    by (simp add: sent_def)
qed

text \<open>
  The theorem of claim C8 at a session that has not previewed, and at one whose preview
  counted zero records.
\<close>

theorem download_needs_preview_witness:
  "downloadSummary julyState = None
   \<and> executeDownload 0 id id exampleConfig (pagedEndpoint []) julyState
       = Some (julyState\<lparr>alerts := alerts julyState @ [NoPreview]\<rparr>)
   \<and> map_option count (downloadSummary previewedEmpty) = Some 0
   \<and> \<not> configMissing exampleConfig
   \<and> (\<exists>t'. executeDownload (Suc 0) id id exampleConfig (pagedEndpoint []) previewedEmpty = Some t'
          \<and> map fst (sent previewedEmpty t') = [pageRequest (downloadPayload previewedEmpty) 0]
          \<and> length (saved t') = Suc (length (saved previewedEmpty)))"
proof -
  have none: "downloadSummary julyState = None"
    by (simp add: julyState_eq initial_def)
  obtain sm where sm: "downloadSummary previewedEmpty = Some sm" "count sm = 0"
    using previewed_summary(3) by auto
  define c :: "string chunk" where
    "c = \<lparr> success = True, error = None, data = [], fetchedCount = 0, hasMore = False,
           total_f = Some 0 \<rparr>"
  have page: "pagedEndpoint [] (length (network previewedEmpty))
      (pageRequest (downloadPayload previewedEmpty) 0) = Json c"
    by (simp add: pagedEndpoint_def pageRequest_def Let_def c_def CHUNK_SIZE_def)
  have c: "success c" "\<not> hasMore c"
    by (simp_all add: c_def)
  from download_needs_preview
    [of julyState 0 id id exampleConfig "pagedEndpoint []" previewedEmpty sm c]
    none sm cfg_ok page c previewed_summary(3)
  show ?thesis by simp
qed

text \<open>
  Claim C9. When the backend URL or the anon key is missing, neither handler sends a
  request: the preview (once its filter check has passed) alerts the missing
  configuration, leaves no summary and ends the loading state; the download returns
  without a request and without a file, and with a preview it alerts the missing
  configuration and ends the loading state.
\<close>

theorem missing_config_fails_before_any_request:
  assumes "configMissing cfg"
  shows "network (previewDownload fl cfg ep s) = network s
    \<and> (truthy_num (downloadMonth s)
          \<or> truthy_str (downloadStartDate s) \<and> truthy_str (downloadEndDate s) \<longrightarrow>
        alerts (previewDownload fl cfg ep s) = alerts s @ [FailedToPreview ConfigMissing]
        \<and> downloadSummary (previewDownload fl cfg ep s) = None
        \<and> \<not> downloadLoading (previewDownload fl cfg ep s))
    \<and> (\<exists>t'. executeDownload fuel fl str cfg ep t = Some t'
          \<and> network t' = network t \<and> saved t' = saved t
          \<and> (downloadSummary t \<noteq> None \<longrightarrow>
                alerts t' = alerts t @ [FailedToDownload ConfigMissing]
                \<and> \<not> downloadLoading t'))"
  using assms
  by (auto simp: previewDownload_def executeDownload_def Let_def split: option.splits)

text \<open>The theorem of claim C9 at a configuration without URL.\<close>

theorem missing_config_fails_before_any_request_witness:
  "configMissing noUrlConfig
   \<and> truthy_str (downloadStartDate julyState) \<and> truthy_str (downloadEndDate julyState)
   \<and> downloadSummary (previewed threeRowScript) \<noteq> None
   \<and> network (previewDownload id noUrlConfig (scripted threeRowScript) julyState) = network julyState
   \<and> alerts (previewDownload id noUrlConfig (scripted threeRowScript) julyState)
        = alerts julyState @ [FailedToPreview ConfigMissing]
   \<and> (\<exists>t'. executeDownload 3 id id noUrlConfig (scripted threeRowScript) (previewed threeRowScript)
              = Some t'
          \<and> network t' = network (previewed threeRowScript)
          \<and> saved t' = saved (previewed threeRowScript)
          \<and> alerts t' = alerts (previewed threeRowScript) @ [FailedToDownload ConfigMissing])"
proof -
  have missing: "configMissing noUrlConfig"
    by (simp add: configMissing_def noUrlConfig_def truthy_opt_str_def)
  have dates: "truthy_str (downloadStartDate julyState)" "truthy_str (downloadEndDate julyState)"
    by (simp_all add: julyState_eq truthy_str_def)
  from missing_config_fails_before_any_request
    [OF missing, of id "scripted threeRowScript" julyState 3 id "previewed threeRowScript"]
    missing dates previewed_summary(1)
  show ?thesis by auto
qed

text \<open>
  Claim C10. When a page request of an export fails, the six filter cells and the
  preview summary are what they were, so that the same export can be started again: a new
  run from the state left behind begins with the request for offset 0 under the same
  payload. The cells change only in a run in which every page succeeded and the file was
  saved, and there they are cleared.
\<close>

theorem failed_export_keeps_request:
  assumes run: "executeDownload fuel fl str cfg ep s = Some s'"
  shows "(\<not> all_pages_ok s s' \<longrightarrow>
            exportRequest s' = exportRequest s
            \<and> downloadSummary s' \<noteq> None
            \<and> downloadPayload s' = downloadPayload s
            \<and> (\<forall>k ep' t. executeDownload k fl str cfg ep' s' = Some t \<longrightarrow>
                  (\<exists>ys. sent s' t = exchange ep' (downloadPayload s) (length (network s')) 0 0 # ys)))
       \<and> (exportRequest s' \<noteq> exportRequest s \<longrightarrow>
            cleared s' \<and> all_pages_ok s s' \<and> length (saved s') = Suc (length (saved s)))"
proof -
  have kept: "exportRequest s' = exportRequest s
            \<and> downloadSummary s' \<noteq> None
            \<and> downloadPayload s' = downloadPayload s
            \<and> (\<forall>k ep' t. executeDownload k fl str cfg ep' s' = Some t \<longrightarrow>
                  (\<exists>ys. sent s' t = exchange ep' (downloadPayload s) (length (network s')) 0 0 # ys))"
    if bad: "\<not> all_pages_ok s s'"
  proof -
    note f = failed_run [OF run bad]
    from f(3) have same: "exportRequest s' = exportRequest s" .
    from same f(5) have preview: "downloadSummary s' \<noteq> None"
      by (simp add: exportRequest_def)
    from same have payload: "downloadPayload s' = downloadPayload s"
      by (simp add: exportRequest_def downloadPayload_def Let_def)
    have "\<exists>ys. sent s' t = exchange ep' (downloadPayload s) (length (network s')) 0 0 # ys"
      if again: "executeDownload k fl str cfg ep' s' = Some t" for k ep' t
    proof -
      define n where "n = length (sent s' t)"
      from executeDownload_network(2) [OF again preview f(6)] have "0 < n"
        by (simp add: n_def)
      then obtain m where m: "n = Suc m" by (cases n) simp_all
      from executeDownload_network(1) [OF again]
      have "sent s' t = map (exchange ep' (downloadPayload s) (length (network s')) 0) [0..<Suc m]"
        by (simp only: n_def [symmetric] m payload)
      then show ?thesis
        by (simp only: map_exchange_Suc) blast
    qed
    with same preview payload show ?thesis by blast
  qed
  have after: "cleared s' \<and> all_pages_ok s s' \<and> length (saved s') = Suc (length (saved s))"
    if changed: "exportRequest s' \<noteq> exportRequest s"
    using run
  proof (cases rule: executeDownload_outcomes)
    case no_preview
    with changed show ?thesis by (simp add: exportRequest_def)
  next
    case no_config
    with changed show ?thesis by (simp add: exportRequest_def)
  next
    case (failed xs x)
    with changed show ?thesis by simp
  next
    case (completed xs)
    then show ?thesis by (simp add: all_pages_ok_def sent_def)
  qed
  from kept after show ?thesis by blast
qed

text \<open>
  The theorem of claim C10 at the session whose second page fails, and at the session
  that completes.
\<close>

theorem failed_export_keeps_request_witness:
  "executeDownload 3 id id exampleConfig (scripted failingScript) (previewed failingScript)
     = Some failedRun
   \<and> \<not> all_pages_ok (previewed failingScript) failedRun
   \<and> exportRequest failedRun = exportRequest (previewed failingScript)
   \<and> exportRequest failedRun =
        (''2024-07-01'', ''2024-07-31'', [], [], None, None,
         Some \<lparr> count = 3, dateRange = ''2024-07-01 to 2024-07-31'', timeRange = ''All day'',
                transportFilter = ''All'', estimatedSizeMB = Fin 0 \<rparr>)
   \<and> executeDownload 3 id id exampleConfig (scripted threeRowScript) (previewed threeRowScript)
       = Some completedRun
   \<and> exportRequest completedRun \<noteq> exportRequest (previewed threeRowScript)
   \<and> cleared completedRun
   \<and> length (saved completedRun) = Suc (length (saved (previewed threeRowScript)))"
proof -
  note a = failed_export_keeps_request [OF failedRun_run]
  note b = failed_export_keeps_request [OF completedRun_run]
  have req: "exportRequest (previewed failingScript) =
        (''2024-07-01'', ''2024-07-31'', [], [], None, None,
         Some \<lparr> count = 3, dateRange = ''2024-07-01 to 2024-07-31'', timeRange = ''All day'',
                transportFilter = ''All'', estimatedSizeMB = Fin 0 \<rparr>)"
    by (simp add: exportRequest_def example_defs floor_rat_numeral)
  have changed: "exportRequest completedRun \<noteq> exportRequest (previewed threeRowScript)"
    by (simp add: exportRequest_def completedRun_def example_defs)
  from a b req changed failedRun_run completedRun_run examples_ok(2) show ?thesis
    by simp
qed

end
